theory Spec2Isabelle
  imports Main "HOL-Library.Word"
begin

unbundle bit_operations_syntax

section \<open>The client connection core of MPD (src/client.c)\<close>

text \<open>
  A shallow embedding of \<^verbatim>\<open>src/client.c\<close>. Every C function that the properties below
  talk about is a HOL function of the same name that takes the client and returns the
  client as the C function leaves it.

  \<^item> \<^verbatim>\<open>size_t\<close> counters are \<open>nat\<close>. No sum in this file comes near \<open>SIZE_MAX\<close>
    (the counters are bounded by the two caps and the 4096-byte buffers), and every
    subtraction is guarded by an \<^verbatim>\<open>assert\<close> of the source that the accounting of the
    deferred queue implies (\<open>write_deferred_asserts\<close> below), so wrap-around plays no
    part.
  \<^item> \<^verbatim>\<open>unsigned\<close> masks are \<open>32 word\<close>.
  \<^item> \<^verbatim>\<open>char buffer[4096]; size_t bufferLength\<close> is the list of the valid bytes
    \<open>buffer[0..bufferLength)\<close>; likewise \<^verbatim>\<open>send_buf\<close> / \<^verbatim>\<open>send_buf_used\<close>. The two
    lengths are read off the lists.
  \<^item> A \<^verbatim>\<open>struct deferred_buffer\<close> is the list of its \<open>size\<close> payload bytes, the
    \<^verbatim>\<open>GQueue\<close> a list of them, head first.
  \<^item> The kernel's side of the socket is part of the state: \<open>sock_sent\<close> is what
    \<^verbatim>\<open>write(2)\<close> has accepted so far, \<open>sock_script\<close> the results the coming calls of
    \<^verbatim>\<open>write(2)\<close> will have.
\<close>

subsection \<open>Data\<close>

datatype errno = EAGAIN | EINTR | EBADF | EIO

datatype wres = Written nat | Failed errno

record client =
  buffer :: string
  bufferPos :: nat
  fd :: int
  permission :: "32 word"
  uid :: int
  lastTime :: int
  cmd_list :: "string list"
  cmd_list_OK :: int
  cmd_list_size :: nat
  deferred_send :: "string list"
  deferred_bytes :: nat
  num :: "32 word"
  send_buf :: string
  idle_waiting :: bool
  idle_flags :: "32 word"
  idle_subscriptions :: "32 word"
  sock_sent :: string
  sock_script :: "wres list"

text \<open>
  What the file takes from outside: its four tunables (the \<^verbatim>\<open>static\<close> variables set by
  \<^verbatim>\<open>client_manager_init\<close>), the constants of \<^verbatim>\<open>command.h\<close> and \<^verbatim>\<open>config.h\<close>, the
  name table of \<^verbatim>\<open>idle_get_names()\<close>, the command collaborator, the reading of
  \<^verbatim>\<open>time(NULL)\<close>, and \<open>deferred_header\<close>, the value of
  \<^verbatim>\<open>sizeof(struct deferred_buffer) - sizeof(buf->data)\<close> on the platform.
\<close>

record env =
  client_timeout :: int
  client_max_connections :: nat
  client_max_command_list_size :: nat
  client_max_output_buffer_size :: nat
  COMMAND_RETURN_KILL :: int
  COMMAND_RETURN_CLOSE :: int
  PROTOCOL_VERSION :: string
  default_permissions :: "32 word"
  idle_names :: "string list"
  deferred_header :: nat
  now :: int
  command_process :: "string \<Rightarrow> client \<Rightarrow> int \<times> client"
  command_process_list :: "int \<Rightarrow> string list \<Rightarrow> client \<Rightarrow> int \<times> client"

definition sizeof_buffer :: nat where
  "sizeof_buffer = 4096"

definition sizeof_send_buf :: nat where
  "sizeof_send_buf = 4096"

definition bufferLength :: "client \<Rightarrow> nat" where
  "bufferLength c = length (buffer c)"

definition send_buf_used :: "client \<Rightarrow> nat" where
  "send_buf_used c = length (send_buf c)"

definition CLIENT_LIST_MODE_BEGIN :: string where
  "CLIENT_LIST_MODE_BEGIN = ''command_list_begin''"

definition CLIENT_LIST_OK_MODE_BEGIN :: string where
  "CLIENT_LIST_OK_MODE_BEGIN = ''command_list_ok_begin''"

definition CLIENT_LIST_MODE_END :: string where
  "CLIENT_LIST_MODE_END = ''command_list_end''"

definition GREETING :: "env \<Rightarrow> string" where
  "GREETING env = ''OK MPD '' @ PROTOCOL_VERSION env @ [CHR 0x0A]"

subsection \<open>Expiry\<close>

definition client_is_expired :: "client \<Rightarrow> bool" where
  "client_is_expired c = (fd c < 0)"

definition client_set_expired :: "client \<Rightarrow> client" where
  "client_set_expired c = (if fd c \<ge> 0 then c\<lparr>fd := -1\<rparr> else c)"

subsection \<open>The system call write\<close>

text \<open>
  \<^verbatim>\<open>write(client->fd, data, length)\<close>. On a closed descriptor it fails with \<open>EBADF\<close>.
  Otherwise the next entry of the script decides; a count is cut to the length asked
  for, as POSIX has it, and a socket whose script is used up would block.
\<close>

definition sys_write :: "client \<Rightarrow> string \<Rightarrow> wres \<times> client" where
  "sys_write c data =
     (if fd c < 0 then (Failed EBADF, c)
      else case sock_script c of
        [] \<Rightarrow> (Failed EAGAIN, c)
      | Written n # rs \<Rightarrow>
          (Written (min n (length data)),
           c\<lparr>sock_script := rs, sock_sent := sock_sent c @ take (min n (length data)) data\<rparr>)
      | Failed e # rs \<Rightarrow> (Failed e, c\<lparr>sock_script := rs\<rparr>))"

subsection \<open>The deferred queue\<close>

definition client_defer_output :: "env \<Rightarrow> client \<Rightarrow> string \<Rightarrow> client" where
  "client_defer_output env c data =
     (let alloc = deferred_header env + length data;
          c1 = c\<lparr>deferred_bytes := deferred_bytes c + alloc\<rparr>
      in if deferred_bytes c1 > client_max_output_buffer_size env
         then client_set_expired c1
         else c1\<lparr>deferred_send := deferred_send c1 @ [data]\<rparr>)"

text \<open>
  The \<^verbatim>\<open>while\<close> loop of \<^verbatim>\<open>client_write_deferred\<close>. It returns the last value of
  \<^verbatim>\<open>ret\<close> (with \<^verbatim>\<open>errno\<close>) beside the client; \<^verbatim>\<open>ret\<close> starts as 0.
\<close>

function client_write_deferred_loop :: "env \<Rightarrow> wres \<Rightarrow> client \<Rightarrow> wres \<times> client" where
  "client_write_deferred_loop env ret c =
     (case deferred_send c of
        [] \<Rightarrow> (ret, c)
      | buf # rest \<Rightarrow>
          (case sys_write c buf of
             (Failed e, c1) \<Rightarrow> (Failed e, c1)
           | (Written r, c1) \<Rightarrow>
               if r < length buf
               then (Written r,
                     c1\<lparr>deferred_bytes := deferred_bytes c1 - r,
                        deferred_send := drop r buf # rest\<rparr>)
               else client_write_deferred_loop env (Written r)
                      (c1\<lparr>deferred_bytes := deferred_bytes c1 - (deferred_header env + length buf),
                          deferred_send := rest,
                          lastTime := now env\<rparr>)))"
  by pat_completeness auto
termination
  by (relation "measure (\<lambda>(env, ret, c). length (deferred_send c))") auto

definition client_write_deferred :: "env \<Rightarrow> client \<Rightarrow> client" where
  "client_write_deferred env c =
     (case client_write_deferred_loop env (Written 0) c of
        (ret, c1) \<Rightarrow>
          if deferred_send c1 = [] then c1
          else (case ret of
                  Failed e \<Rightarrow> if e \<noteq> EAGAIN \<and> e \<noteq> EINTR then client_set_expired c1 else c1
                | Written r \<Rightarrow> c1))"

subsection \<open>The send buffer\<close>

definition client_write_direct :: "env \<Rightarrow> client \<Rightarrow> string \<Rightarrow> client" where
  "client_write_direct env c data =
     (case sys_write c data of
        (Failed e, c1) \<Rightarrow>
          if e = EAGAIN \<or> e = EINTR then client_defer_output env c1 data
          else client_set_expired c1
      | (Written ret, c1) \<Rightarrow>
          if ret < send_buf_used c1 then client_defer_output env c1 (drop ret data)
          else c1)"

definition client_write_output :: "env \<Rightarrow> client \<Rightarrow> client" where
  "client_write_output env c =
     (if client_is_expired c \<or> send_buf_used c = 0 then c
      else (if deferred_send c \<noteq> []
            then client_write_deferred env (client_defer_output env c (send_buf c))
            else client_write_direct env c (send_buf c))\<lparr>send_buf := []\<rparr>)"

lemma client_write_output_flushed:
  "\<not> client_is_expired c \<Longrightarrow> send_buf_used c \<noteq> 0 \<Longrightarrow> send_buf (client_write_output env c) = []"
  by (simp add: client_write_output_def)

text \<open>
  The \<^verbatim>\<open>while\<close> loop of \<^verbatim>\<open>client_write\<close>; \<open>data\<close> is what is left of the caller's
  buffer, \<^verbatim>\<open>buflen\<close> its length. The source asserts \<^verbatim>\<open>send_buf_used < sizeof(send_buf)\<close>
  at the head of the body; where that fails the model copies nothing and flushes.
\<close>

function client_write_loop :: "env \<Rightarrow> client \<Rightarrow> string \<Rightarrow> client" where
  "client_write_loop env c data =
     (if data \<noteq> [] \<and> \<not> client_is_expired c then
        let copylen = min (sizeof_send_buf - send_buf_used c) (length data);
            c1 = c\<lparr>send_buf := send_buf c @ take copylen data\<rparr>;
            c2 = (if send_buf_used c1 \<ge> sizeof_send_buf then client_write_output env c1 else c1)
        in client_write_loop env c2 (drop copylen data)
      else c)"
  by pat_completeness auto
termination
proof (relation "measures [\<lambda>(env, c, data). length data,
                           \<lambda>(env, c, data). if send_buf_used c \<ge> sizeof_send_buf then 1 else 0]",
       goal_cases)
  case 1
  show ?case by simp
next
  case (2 env c data copylen c1 c2)
  show ?case
  proof (cases "send_buf_used c < sizeof_send_buf")
    case True
    with 2 show ?thesis by (auto simp: min_def)
  next
    case False
    with 2 have "copylen = 0" by simp
    with 2 False have c1: "c1 = c" by simp
    from False have used: "send_buf_used c \<noteq> 0" by (simp add: sizeof_send_buf_def)
    from 2 have "\<not> client_is_expired c" by simp
    then have "send_buf (client_write_output env c) = []"
      using used by (rule client_write_output_flushed)
    with 2 c1 False \<open>copylen = 0\<close> show ?thesis
      by (simp add: send_buf_used_def sizeof_send_buf_def)
  qed
qed

definition client_write :: "env \<Rightarrow> client \<Rightarrow> string \<Rightarrow> client" where
  "client_write env c data = (if client_is_expired c then c else client_write_loop env c data)"

definition client_puts :: "env \<Rightarrow> client \<Rightarrow> string \<Rightarrow> client" where
  "client_puts env c s = client_write env c s"

text \<open>
  \<^verbatim>\<open>client_vprintf\<close>. The format and its arguments enter as what \<^verbatim>\<open>vsnprintf\<close> makes
  of them: \<open>len\<close> is the value the first call returns (negative on an encoding
  error), \<open>formatted\<close> the text the second call stores.
\<close>

definition client_vprintf :: "env \<Rightarrow> client \<Rightarrow> int \<Rightarrow> string \<Rightarrow> client" where
  "client_vprintf env c len formatted =
     (if len \<le> 0 then c else client_write env c (take (nat len) formatted))"

definition client_printf :: "env \<Rightarrow> client \<Rightarrow> int \<Rightarrow> string \<Rightarrow> client" where
  "client_printf env c len formatted = client_vprintf env c len formatted"

subsection \<open>Idle notification\<close>

text \<open>The text \<^verbatim>\<open>"changed: %s\n"\<close> makes of a name.\<close>

definition fmt_changed :: "string \<Rightarrow> string" where
  "fmt_changed name = ''changed: '' @ name @ [CHR 0x0A]"

text \<open>
  The \<^verbatim>\<open>for\<close> loop of \<^verbatim>\<open>client_idle_notify\<close> over the name table, from index \<open>i\<close> on.
  \<^verbatim>\<open>1 << i\<close> is \<open>push_bit i 1\<close>.
\<close>

fun client_idle_notify_loop :: "env \<Rightarrow> 32 word \<Rightarrow> nat \<Rightarrow> string list \<Rightarrow> client \<Rightarrow> client" where
  "client_idle_notify_loop env flags i [] c = c"
| "client_idle_notify_loop env flags i (name # names) c =
     client_idle_notify_loop env flags (i + 1) names
       (if flags AND push_bit i 1 AND idle_subscriptions c \<noteq> 0
        then client_printf env c (int (length (fmt_changed name))) (fmt_changed name)
        else c)"

definition client_idle_notify :: "env \<Rightarrow> client \<Rightarrow> client" where
  "client_idle_notify env c =
     (let flags = idle_flags c;
          c1 = c\<lparr>idle_flags := 0, idle_waiting := False\<rparr>;
          c2 = client_idle_notify_loop env flags 0 (idle_names env) c1;
          c3 = client_puts env c2 (''OK'' @ [CHR 0x0A])
      in c3\<lparr>lastTime := now env\<rparr>)"

text \<open>The body of the loop of \<^verbatim>\<open>client_manager_idle_add\<close>, for one client of the registry.\<close>

definition client_idle_add :: "env \<Rightarrow> 32 word \<Rightarrow> client \<Rightarrow> client" where
  "client_idle_add env flags c =
     (if client_is_expired c then c
      else let c1 = c\<lparr>idle_flags := idle_flags c OR flags\<rparr>
           in if idle_waiting c1 \<and> idle_flags c1 AND idle_subscriptions c1 \<noteq> 0
              then client_write_output env (client_idle_notify env c1)
              else c1)"

text \<open>The registry \<^verbatim>\<open>clients\<close> is the list of its clients, first entry first.\<close>

definition client_manager_idle_add :: "env \<Rightarrow> 32 word \<Rightarrow> client list \<Rightarrow> client list" where
  "client_manager_idle_add env flags clients = map (client_idle_add env flags) clients"

definition client_idle_wait :: "env \<Rightarrow> client \<Rightarrow> 32 word \<Rightarrow> bool \<times> client" where
  "client_idle_wait env c flags =
     (let c1 = c\<lparr>idle_waiting := True, idle_subscriptions := flags\<rparr>
      in if idle_flags c1 AND idle_subscriptions c1 \<noteq> 0
         then (True, client_idle_notify env c1)
         else (False, c1))"

subsection \<open>The line processor\<close>

text \<open>
  Modelled from the spec: \<^verbatim>\<open>command_success\<close> is a function of \<^verbatim>\<open>command.c\<close>, which is
  not among the sources. The spec has a successful command followed by the trailing
  \<^verbatim>\<open>OK\n\<close>, emitted through the client's output path.
\<close>

definition command_success :: "env \<Rightarrow> client \<Rightarrow> client" where
  "command_success env c = client_puts env c (''OK'' @ [CHR 0x0A])"

definition new_cmd_list_ptr :: "client \<Rightarrow> string \<Rightarrow> client" where
  "new_cmd_list_ptr c s = c\<lparr>cmd_list := s # cmd_list c\<rparr>"

definition client_process_line :: "env \<Rightarrow> client \<Rightarrow> string \<Rightarrow> int \<times> client" where
  "client_process_line env c line =
     (if line = ''noidle'' then
        (if idle_waiting c
         then (0, client_write_output env (command_success env (c\<lparr>idle_waiting := False\<rparr>)))
         else (0, c))
      else if idle_waiting c then (COMMAND_RETURN_CLOSE env, c)
      else if cmd_list_OK c \<ge> 0 then
        (if line = CLIENT_LIST_MODE_END then
           (let c1 = c\<lparr>cmd_list := rev (cmd_list c)\<rparr>
            in case command_process_list env (cmd_list_OK c1) (cmd_list c1) c1 of
                 (ret, c2) \<Rightarrow>
                   if ret = COMMAND_RETURN_CLOSE env \<or> client_is_expired c2
                   then (COMMAND_RETURN_CLOSE env, c2)
                   else let c3 = (if ret = 0 then command_success env c2 else c2);
                            c4 = client_write_output env c3
                        in (ret, c4\<lparr>cmd_list := [], cmd_list_OK := -1\<rparr>))
         else
           (let len = length line + 1;
                c1 = c\<lparr>cmd_list_size := cmd_list_size c + len\<rparr>
            in if cmd_list_size c1 > client_max_command_list_size env
               then (COMMAND_RETURN_CLOSE env, c1)
               else (1, new_cmd_list_ptr c1 line)))
      else
        (if line = CLIENT_LIST_MODE_BEGIN then (1, c\<lparr>cmd_list_OK := 0\<rparr>)
         else if line = CLIENT_LIST_OK_MODE_BEGIN then (1, c\<lparr>cmd_list_OK := 1\<rparr>)
         else
           (case command_process env line c of
              (ret, c1) \<Rightarrow>
                if ret = COMMAND_RETURN_CLOSE env \<or> client_is_expired c1
                then (COMMAND_RETURN_CLOSE env, c1)
                else let c2 = (if ret = 0 then command_success env c1 else c1)
                     in (ret, client_write_output env c2))))"

subsection \<open>The read path\<close>

text \<open>\<^verbatim>\<open>memchr\<close>: the offset of the first occurrence, \<open>None\<close> for \<^verbatim>\<open>NULL\<close>.\<close>

fun memchr :: "string \<Rightarrow> char \<Rightarrow> nat option" where
  "memchr [] ch = None"
| "memchr (x # xs) ch = (if x = ch then Some 0 else map_option Suc (memchr xs ch))"

text \<open>The C string that starts at a byte: what precedes the first NUL.\<close>

definition c_string :: "string \<Rightarrow> string" where
  "c_string bytes = takeWhile (\<lambda>ch. ch \<noteq> CHR 0x00) bytes"

lemma memchr_less: "memchr xs ch = Some k \<Longrightarrow> k < length xs"
  by (induction xs arbitrary: k) (auto split: if_splits)

text \<open>
  The \<^verbatim>\<open>while\<close> loop of \<^verbatim>\<open>client_input_received\<close>; \<open>e\<close> and \<open>start\<close> are the offsets
  of the pointers \<^verbatim>\<open>end\<close> and \<^verbatim>\<open>start\<close> in the buffer. \<open>Some ret\<close> is a \<^verbatim>\<open>return\<close> from
  inside the loop, \<open>None\<close> its regular end, with the last \<open>start\<close>.
\<close>

function client_input_loop :: "env \<Rightarrow> nat \<Rightarrow> nat \<Rightarrow> client \<Rightarrow> int option \<times> nat \<times> client" where
  "client_input_loop env e start c =
     (case memchr (take (e - start) (drop start (buffer c))) (CHR 0x0A) of
        None \<Rightarrow> (None, start, c)
      | Some k \<Rightarrow>
          (let newline = start + k;
               next = newline + 1;
               newline' = (if newline > start \<and> buffer c ! (newline - 1) = CHR 0x0D
                           then newline - 1 else newline);
               c1 = c\<lparr>buffer := (buffer c)[newline' := CHR 0x00]\<rparr>
           in case client_process_line env c1 (c_string (drop start (buffer c1))) of
                (ret, c2) \<Rightarrow>
                  if ret = COMMAND_RETURN_KILL env \<or> ret = COMMAND_RETURN_CLOSE env
                  then (Some ret, start, c2)
                  else if client_is_expired c2 then (Some (COMMAND_RETURN_CLOSE env), start, c2)
                  else client_input_loop env e next c2))"
  by pat_completeness auto
termination
  by (relation "measure (\<lambda>(env, e, start, c). e - start)")
     (auto dest!: memchr_less)

text \<open>
  \<^verbatim>\<open>client_input_received\<close>; \<open>data\<close> are the \<^verbatim>\<open>bytesRead\<close> bytes that \<^verbatim>\<open>read(2)\<close> has
  stored behind the valid part of the buffer.
\<close>

definition client_input_received :: "env \<Rightarrow> client \<Rightarrow> string \<Rightarrow> int \<times> client" where
  "client_input_received env c data =
     (let c0 = c\<lparr>buffer := buffer c @ data\<rparr>
      in case client_input_loop env (bufferLength c0) (bufferPos c) c0 of
           (Some ret, start, c1) \<Rightarrow> (ret, c1)
         | (None, start, c1) \<Rightarrow>
             (let c2 = c1\<lparr>bufferPos := start\<rparr>
              in if bufferLength c2 = sizeof_buffer
                 then (if bufferPos c2 = 0 then (COMMAND_RETURN_CLOSE env, c2)
                       else (0, c2\<lparr>buffer := drop (bufferPos c2) (buffer c2), bufferPos := 0\<rparr>))
                 else (0, c2)))"

text \<open>
  What \<^verbatim>\<open>read(2)\<close> returns: the bytes it read (none at the peer's end of file), or
  an error. The kernel stores at most the count asked for.
\<close>

datatype rres = Rd string | RdFailed errno

definition client_read :: "env \<Rightarrow> client \<Rightarrow> rres \<Rightarrow> int \<times> client" where
  "client_read env c r =
     (case r of
        Rd bytes \<Rightarrow>
          (let data = take (sizeof_buffer - bufferLength c) bytes
           in if length data > 0 then client_input_received env c data
              else (COMMAND_RETURN_CLOSE env, c))
      | RdFailed e \<Rightarrow> if e = EINTR then (0, c) else (COMMAND_RETURN_CLOSE env, c))"

subsection \<open>Creation\<close>

text \<open>
  \<^verbatim>\<open>client_new\<close> takes the client zeroed from \<^verbatim>\<open>xcalloc\<close>; \<^verbatim>\<open>client_init\<close> sets the
  fields it names and writes the greeting with \<^verbatim>\<open>xwrite\<close>, past the send buffer; the
  socket is new and takes it whole. \<open>script\<close> is the future of the new socket.
\<close>

definition client_calloc :: "wres list \<Rightarrow> client" where
  "client_calloc script =
     \<lparr>buffer = [], bufferPos = 0, fd = 0, permission = 0, uid = 0, lastTime = 0,
      cmd_list = [], cmd_list_OK = 0, cmd_list_size = 0, deferred_send = [],
      deferred_bytes = 0, num = 0, send_buf = [], idle_waiting = False, idle_flags = 0,
      idle_subscriptions = 0, sock_sent = [], sock_script = script\<rparr>"

definition client_init :: "env \<Rightarrow> 32 word \<Rightarrow> client \<Rightarrow> int \<Rightarrow> client" where
  "client_init env next_client_num c fd0 =
     c\<lparr>cmd_list_size := 0, cmd_list_OK := -1, buffer := [], bufferPos := 0, fd := fd0,
       lastTime := now env, cmd_list := [], deferred_send := [], deferred_bytes := 0,
       num := next_client_num, send_buf := [], permission := default_permissions env,
       sock_sent := sock_sent c @ GREETING env\<rparr>"

record manager =
  clients :: "client list"
  next_client_num :: "32 word"

definition num_clients :: "manager \<Rightarrow> nat" where
  "num_clients m = length (clients m)"

definition client_new :: "env \<Rightarrow> manager \<Rightarrow> int \<Rightarrow> int \<Rightarrow> wres list \<Rightarrow> manager" where
  "client_new env m fd0 uid0 script =
     (if num_clients m \<ge> client_max_connections env then m
      else m\<lparr>clients := (client_init env (next_client_num m) (client_calloc script) fd0)\<lparr>uid := uid0\<rparr>
                           # clients m,
             next_client_num := next_client_num m + 1\<rparr>)"

subsection \<open>A configuration and a client to compute with\<close>

text \<open>
  The defaults of the source (60 s, 10 connections, 2 MiB, 8 MiB), a collaborator whose
  commands succeed and print nothing, and the client that \<^verbatim>\<open>client_new\<close> puts into an
  empty registry for descriptor 5 of a TCP peer (uid -1).
\<close>

definition example_env :: env where
  "example_env =
     \<lparr>client_timeout = 60, client_max_connections = 10,
      client_max_command_list_size = 2048 * 1024,
      client_max_output_buffer_size = 8192 * 1024,
      COMMAND_RETURN_KILL = 10, COMMAND_RETURN_CLOSE = 20,
      PROTOCOL_VERSION = ''0.14.0'', default_permissions = 31,
      idle_names = [''database'', ''stored_playlist'', ''playlist'', ''player'', ''mixer'',
                    ''output'', ''options''],
      deferred_header = 8, now = 1000,
      command_process = (\<lambda>line c. (0, c)),
      command_process_list = (\<lambda>ok list c. (0, c))\<rparr>"

definition example_client :: "wres list \<Rightarrow> client" where
  "example_client script =
     hd (clients (client_new example_env \<lparr>clients = [], next_client_num = 0\<rparr> 5 (-1) script))"

section \<open>Notions the properties are stated with\<close>

text \<open>
  The accounted size of a deferred queue: for every chunk still queued, the header
  and the payload. \<open>deferred_inv\<close> is the equation between \<open>deferred_bytes\<close> and this
  sum; \<open>deferred_ok\<close> asks it of the clients that are not expired.
\<close>

definition deferred_account :: "env \<Rightarrow> string list \<Rightarrow> nat" where
  "deferred_account env q = sum_list (map (\<lambda>buf. deferred_header env + length buf) q)"

definition deferred_inv :: "env \<Rightarrow> client \<Rightarrow> bool" where
  "deferred_inv env c = (deferred_bytes c = deferred_account env (deferred_send c))"

definition deferred_ok :: "env \<Rightarrow> client \<Rightarrow> bool" where
  "deferred_ok env c = (client_is_expired c \<or> deferred_inv env c)"

text \<open>The same equation with \<open>k\<close> bytes accounted beyond the queue.\<close>

definition deferred_excess :: "env \<Rightarrow> client \<Rightarrow> nat \<Rightarrow> bool" where
  "deferred_excess env c k =
     (deferred_bytes c = deferred_account env (deferred_send c) + k)"

text \<open>
  The bytes on their way to the peer, in order: what the socket has accepted, then the
  deferred chunks, then the send buffer.
\<close>

definition wire :: "client \<Rightarrow> string" where
  "wire c = sock_sent c @ concat (deferred_send c)"

definition out_stream :: "client \<Rightarrow> string" where
  "out_stream c = wire c @ send_buf c"

text \<open>
  The fields that the output path never writes: \<open>frame\<close> blanks the others, so that two
  clients with the same frame differ in the output path's fields only.
\<close>

definition frame :: "client \<Rightarrow> client" where
  "frame c = c\<lparr>fd := 0, lastTime := 0, deferred_send := [], deferred_bytes := 0,
               send_buf := [], sock_sent := [], sock_script := []\<rparr>"

text \<open>The last statement of the body of the loop of \<^verbatim>\<open>client_write\<close>.\<close>

definition flush_if_full :: "env \<Rightarrow> client \<Rightarrow> client" where
  "flush_if_full env c = (if send_buf_used c \<ge> sizeof_send_buf then client_write_output env c else c)"

text \<open>
  The idle response in the spec's words: for each bit \<open>i\<close> set in the mask, the line
  \<^verbatim>\<open>changed: <name_i>\<close>, the names taken in the order of the table; then \<^verbatim>\<open>OK\<close>.
\<close>

definition idle_changed :: "32 word \<Rightarrow> nat \<Rightarrow> string list \<Rightarrow> string" where
  "idle_changed m i names =
     concat (map (\<lambda>(j, name). if bit m j then fmt_changed name else []) (enumerate i names))"

definition idle_response :: "string list \<Rightarrow> 32 word \<Rightarrow> string" where
  "idle_response names m = idle_changed m 0 names @ ''OK'' @ [CHR 0x0A]"

text \<open>What a list of queued lines adds to \<open>cmd_list_size\<close>: each length, plus one.\<close>

definition line_sizes :: "string list \<Rightarrow> nat" where
  "line_sizes ls = sum_list (map (\<lambda>l. length l + 1) ls)"

text \<open>A line without the carriage return that may end it.\<close>

definition strip_cr :: "string \<Rightarrow> string" where
  "strip_cr line = (if line \<noteq> [] \<and> last line = CHR 0x0D then butlast line else line)"

text \<open>
  A configuration whose output cap is one KiB (\<^verbatim>\<open>max_output_buffer_size "1"\<close>), and a
  payload of \<open>n\<close> bytes.
\<close>

definition small_env :: env where
  "small_env = example_env\<lparr>client_max_output_buffer_size := 1024\<rparr>"

definition payload :: "nat \<Rightarrow> string" where
  "payload n = replicate n (CHR ''a'')"

text \<open>
  A client with a player event pending (bit 3 of the table above), a client parked in
  idle mode on player events, the response that tells of a player event, and a command
  list of one command as it arrives from the socket.
\<close>

definition pending_client :: client where
  "pending_client = (example_client [])\<lparr>idle_flags := 8\<rparr>"

definition waiting_client :: "wres list \<Rightarrow> client" where
  "waiting_client script = (example_client script)\<lparr>idle_waiting := True, idle_subscriptions := 8\<rparr>"

definition player_changed :: string where
  "player_changed = ''changed: player'' @ [CHR 0x0A] @ ''OK'' @ [CHR 0x0A]"

definition list_input :: string where
  "list_input = CLIENT_LIST_MODE_BEGIN @ CHR 0x0A # ''ping'' @ CHR 0x0A # CLIENT_LIST_MODE_END @ [CHR 0x0A]"

text \<open>
  A client that has two bytes in its send buffer and one chunk of three bytes in its
  deferred queue, accounted with its header.
\<close>

definition queued_client :: "wres list \<Rightarrow> client" where
  "queued_client script =
     (example_client script)\<lparr>send_buf := ''hi'', deferred_send := [''low''], deferred_bytes := 11\<rparr>"

text \<open>
  A configuration whose command processor accepts one line only: it answers 0 to the
  line it expects and \<open>COMMAND_RETURN_CLOSE\<close> to every other line.
\<close>

definition line_env :: "string \<Rightarrow> env" where
  "line_env expected =
     example_env\<lparr>command_process :=
       (\<lambda>line c. if line = expected then (0, c) else (COMMAND_RETURN_CLOSE example_env, c))\<rparr>"

section \<open>Lemmas\<close>

declare client_write_deferred_loop.simps [simp del]
declare client_write_loop.simps [simp del]
declare client_input_loop.simps [simp del]

subsection \<open>The system call and expiry\<close>

lemma sys_write_expired:
  "fd c < 0 \<Longrightarrow> sys_write c d = (Failed EBADF, c)"
  by (simp add: sys_write_def)

lemma sys_write_fields:
  assumes "sys_write c d = (r, c1)"
  shows "fd c1 = fd c" "deferred_send c1 = deferred_send c" "deferred_bytes c1 = deferred_bytes c"
    "send_buf c1 = send_buf c" "lastTime c1 = lastTime c"
  using assms by (auto simp: sys_write_def split: if_splits list.splits wres.splits)

lemma sys_write_count:
  "sys_write c d = (Written k, c1) \<Longrightarrow> k \<le> length d \<and> sock_sent c1 = sock_sent c @ take k d"
  by (auto simp: sys_write_def split: if_splits list.splits wres.splits)

lemma sys_write_failed:
  "sys_write c d = (Failed e, c1) \<Longrightarrow> sock_sent c1 = sock_sent c"
  by (auto simp: sys_write_def split: if_splits list.splits wres.splits)

lemma expired_set_expired: "client_is_expired (client_set_expired c)"
  by (simp add: client_is_expired_def client_set_expired_def)

lemma set_expired_fields:
  "deferred_send (client_set_expired c) = deferred_send c"
  "deferred_bytes (client_set_expired c) = deferred_bytes c"
  "send_buf (client_set_expired c) = send_buf c"
  "sock_sent (client_set_expired c) = sock_sent c"
  by (simp_all add: client_set_expired_def)

subsection \<open>Unfolding the loop of the writer\<close>

lemma client_write_loop_stop:
  "data = [] \<or> client_is_expired c \<Longrightarrow> client_write_loop env c data = c"
  by (subst client_write_loop.simps) auto

lemma client_write_loop_step:
  assumes "data \<noteq> []" and "\<not> client_is_expired c"
  shows "client_write_loop env c data =
    (let copylen = min (sizeof_send_buf - send_buf_used c) (length data);
         c1 = c\<lparr>send_buf := send_buf c @ take copylen data\<rparr>;
         c2 = (if send_buf_used c1 \<ge> sizeof_send_buf then client_write_output env c1 else c1)
     in client_write_loop env c2 (drop copylen data))"
  using assms by (subst client_write_loop.simps) simp

lemma write_loop_expired:
  "client_is_expired c \<Longrightarrow> client_write_loop env c d = c"
  by (simp add: client_write_loop_stop)

lemma write_loop_Nil: "client_write_loop env c [] = c"
  by (simp add: client_write_loop_stop)

lemma client_write_is_loop: "client_write env c d = client_write_loop env c d"
  by (simp add: client_write_def write_loop_expired)

lemma write_loop_step':
  assumes "data \<noteq> []" and "\<not> client_is_expired c"
  shows "client_write_loop env c data =
    client_write_loop env
      (flush_if_full env (c\<lparr>send_buf := send_buf c @
           take (min (sizeof_send_buf - send_buf_used c) (length data)) data\<rparr>))
      (drop (min (sizeof_send_buf - send_buf_used c) (length data)) data)"
  using assms by (simp add: client_write_loop_step Let_def flush_if_full_def)

subsection \<open>What the output path leaves alone\<close>

lemma frame_set_expired: "frame (client_set_expired c) = frame c"
  by (simp add: frame_def client_set_expired_def)

lemma frame_sys_write: "sys_write c d = (r, c1) \<Longrightarrow> frame c1 = frame c"
  by (auto simp: frame_def sys_write_def split: if_splits list.splits wres.splits)

lemma frame_defer_output: "frame (client_defer_output env c d) = frame c"
  by (simp add: client_defer_output_def Let_def frame_set_expired) (simp add: frame_def)

lemma frame_write_deferred_loop: "frame (snd (client_write_deferred_loop env r c)) = frame c"
proof (induction env r c rule: client_write_deferred_loop.induct)
  case (1 env ret c)
  show ?case
  proof (cases "deferred_send c")
    case Nil
    then show ?thesis by (subst client_write_deferred_loop.simps) simp
  next
    case (Cons buf rest)
    obtain x y where sw: "sys_write c buf = (x, y)" by (cases "sys_write c buf")
    have fy: "frame y = frame c" using sw by (rule frame_sys_write)
    show ?thesis
    proof (cases x)
      case (Failed e)
      with Cons sw fy show ?thesis by (subst client_write_deferred_loop.simps) simp
    next
      case (Written k)
      show ?thesis
      proof (cases "k < length buf")
        case True
        with Cons sw Written fy show ?thesis
          by (subst client_write_deferred_loop.simps) (simp add: frame_def)
      next
        case False
        have "frame (snd (client_write_deferred_loop env (Written k)
                (y\<lparr>deferred_bytes := deferred_bytes y - (deferred_header env + length buf),
                   deferred_send := rest, lastTime := now env\<rparr>))) =
              frame (y\<lparr>deferred_bytes := deferred_bytes y - (deferred_header env + length buf),
                   deferred_send := rest, lastTime := now env\<rparr>)"
          using Cons sw [symmetric] Written False by (rule "1.IH")
        also have "\<dots> = frame y" by (simp add: frame_def)
        finally show ?thesis using Cons sw Written False fy
          by (subst client_write_deferred_loop.simps) simp
      qed
    qed
  qed
qed

lemma frame_write_deferred: "frame (client_write_deferred env c) = frame c"
proof -
  obtain r c1 where l: "client_write_deferred_loop env (Written 0) c = (r, c1)"
    by (cases "client_write_deferred_loop env (Written 0) c")
  then have "frame c1 = frame c" using frame_write_deferred_loop [of env "Written 0" c] by simp
  with l show ?thesis
    by (simp add: client_write_deferred_def frame_set_expired split: wres.splits)
qed

lemma frame_write_direct: "frame (client_write_direct env c d) = frame c"
proof -
  obtain x y where sw: "sys_write c d = (x, y)" by (cases "sys_write c d")
  then have "frame y = frame c" by (rule frame_sys_write)
  with sw show ?thesis
    by (simp add: client_write_direct_def frame_defer_output frame_set_expired split: wres.splits)
qed

lemma frame_send_buf: "frame (c\<lparr>send_buf := s\<rparr>) = frame c"
  by (simp add: frame_def)

lemma frame_write_output: "frame (client_write_output env c) = frame c"
  by (simp add: client_write_output_def frame_send_buf frame_write_deferred frame_defer_output
        frame_write_direct)

lemma frame_write_loop: "frame (client_write_loop env c d) = frame c"
proof (induction env c d rule: client_write_loop.induct)
  case (1 env c data)
  show ?case
  proof (cases "data \<noteq> [] \<and> \<not> client_is_expired c")
    case False
    then show ?thesis by (simp add: client_write_loop_stop)
  next
    case True
    define x where "x = min (sizeof_send_buf - send_buf_used c) (length data)"
    define xa where "xa = c\<lparr>send_buf := send_buf c @ take x data\<rparr>"
    define xb where "xb = (if sizeof_send_buf \<le> send_buf_used xa
          then client_write_output env xa else xa)"
    have "frame (client_write_loop env xb (drop x data)) = frame xb"
      using True x_def xa_def xb_def by (rule "1.IH")
    also have "\<dots> = frame c" by (simp add: xb_def frame_write_output) (simp add: xa_def frame_send_buf)
    finally have "frame (client_write_loop env xb (drop x data)) = frame c" .
    moreover have "client_write_loop env c data = client_write_loop env xb (drop x data)"
      using True by (simp add: client_write_loop_step Let_def x_def xa_def xb_def)
    ultimately show ?thesis by simp
  qed
qed

lemma frame_write: "frame (client_write env c d) = frame c"
  by (simp add: client_write_def frame_write_loop)

lemma frame_fields:
  assumes "frame c' = frame c"
  shows "buffer c' = buffer c" "bufferPos c' = bufferPos c" "permission c' = permission c"
    "uid c' = uid c" "cmd_list c' = cmd_list c" "cmd_list_OK c' = cmd_list_OK c"
    "cmd_list_size c' = cmd_list_size c" "num c' = num c" "idle_waiting c' = idle_waiting c"
    "idle_flags c' = idle_flags c" "idle_subscriptions c' = idle_subscriptions c"
proof -
  have "buffer (frame c') = buffer (frame c)" using assms by simp
  then show "buffer c' = buffer c" by (simp add: frame_def)
  have "bufferPos (frame c') = bufferPos (frame c)" using assms by simp
  then show "bufferPos c' = bufferPos c" by (simp add: frame_def)
  have "permission (frame c') = permission (frame c)" using assms by simp
  then show "permission c' = permission c" by (simp add: frame_def)
  have "uid (frame c') = uid (frame c)" using assms by simp
  then show "uid c' = uid c" by (simp add: frame_def)
  have "cmd_list (frame c') = cmd_list (frame c)" using assms by simp
  then show "cmd_list c' = cmd_list c" by (simp add: frame_def)
  have "cmd_list_OK (frame c') = cmd_list_OK (frame c)" using assms by simp
  then show "cmd_list_OK c' = cmd_list_OK c" by (simp add: frame_def)
  have "cmd_list_size (frame c') = cmd_list_size (frame c)" using assms by simp
  then show "cmd_list_size c' = cmd_list_size c" by (simp add: frame_def)
  have "num (frame c') = num (frame c)" using assms by simp
  then show "num c' = num c" by (simp add: frame_def)
  have "idle_waiting (frame c') = idle_waiting (frame c)" using assms by simp
  then show "idle_waiting c' = idle_waiting c" by (simp add: frame_def)
  have "idle_flags (frame c') = idle_flags (frame c)" using assms by simp
  then show "idle_flags c' = idle_flags c" by (simp add: frame_def)
  have "idle_subscriptions (frame c') = idle_subscriptions (frame c)" using assms by simp
  then show "idle_subscriptions c' = idle_subscriptions c" by (simp add: frame_def)
qed

subsection \<open>The accounting of the deferred queue\<close>

lemma deferred_inv_excess: "deferred_inv env c = deferred_excess env c 0"
  by (simp add: deferred_inv_def deferred_excess_def)

lemma deferred_account_Cons:
  "deferred_account env (b # q) = deferred_header env + length b + deferred_account env q"
  by (simp add: deferred_account_def)

lemma deferred_account_snoc:
  "deferred_account env (q @ [b]) = deferred_account env q + (deferred_header env + length b)"
  by (simp add: deferred_account_def)

text \<open>
  The three assertions of \<^verbatim>\<open>client_write_deferred\<close> hold wherever the accounting does,
  so none of its subtractions goes below zero.
\<close>

lemma write_deferred_asserts:
  assumes "deferred_excess env c k" and "deferred_send c = buf # rest"
      and "sys_write c buf = (Written r, c1)"
  shows "length buf \<le> deferred_bytes c \<and> r \<le> deferred_bytes c1 \<and>
         deferred_header env + length buf \<le> deferred_bytes c1"
  using assms sys_write_fields(3) [OF assms(3)] sys_write_count [OF assms(3)]
  by (simp add: deferred_excess_def deferred_account_Cons)

lemma write_deferred_loop_excess:
  "deferred_excess env c k \<Longrightarrow> deferred_excess env (snd (client_write_deferred_loop env r c)) k"
proof (induction env r c rule: client_write_deferred_loop.induct)
  case (1 env ret c)
  show ?case
  proof (cases "deferred_send c")
    case Nil
    with 1 show ?thesis by (subst client_write_deferred_loop.simps) simp
  next
    case (Cons buf rest)
    obtain x y where sw: "sys_write c buf = (x, y)" by (cases "sys_write c buf")
    note f = sys_write_fields [OF sw]
    have ey: "deferred_excess env y k" using "1.prems" f by (simp add: deferred_excess_def)
    show ?thesis
    proof (cases x)
      case (Failed e)
      with Cons sw ey show ?thesis by (subst client_write_deferred_loop.simps) simp
    next
      case (Written j)
      show ?thesis
      proof (cases "j < length buf")
        case True
        with Cons sw Written ey f show ?thesis
          by (subst client_write_deferred_loop.simps)
             (simp add: deferred_excess_def deferred_account_Cons)
      next
        case False
        let ?c' = "y\<lparr>deferred_bytes := deferred_bytes y - (deferred_header env + length buf),
                   deferred_send := rest, lastTime := now env\<rparr>"
        have "deferred_excess env ?c' k"
          using ey f Cons by (simp add: deferred_excess_def deferred_account_Cons)
        with Cons sw [symmetric] Written False
        have "deferred_excess env (snd (client_write_deferred_loop env (Written j) ?c')) k"
          by (rule "1.IH")
        then show ?thesis using Cons sw Written False
          by (subst client_write_deferred_loop.simps) simp
      qed
    qed
  qed
qed

lemma write_deferred_loop_fd:
  "fd (snd (client_write_deferred_loop env r c)) = fd c"
proof (induction env r c rule: client_write_deferred_loop.induct)
  case (1 env ret c)
  show ?case
  proof (cases "deferred_send c")
    case Nil
    then show ?thesis by (subst client_write_deferred_loop.simps) simp
  next
    case (Cons buf rest)
    obtain x y where sw: "sys_write c buf = (x, y)" by (cases "sys_write c buf")
    note f = sys_write_fields [OF sw]
    show ?thesis
    proof (cases x)
      case (Failed e)
      with Cons sw f show ?thesis by (subst client_write_deferred_loop.simps) simp
    next
      case (Written j)
      show ?thesis
      proof (cases "j < length buf")
        case True
        with Cons sw Written f show ?thesis
          by (subst client_write_deferred_loop.simps) simp
      next
        case False
        let ?c' = "y\<lparr>deferred_bytes := deferred_bytes y - (deferred_header env + length buf),
                   deferred_send := rest, lastTime := now env\<rparr>"
        from Cons sw [symmetric] Written False
        have "fd (snd (client_write_deferred_loop env (Written j) ?c')) = fd ?c'"
          by (rule "1.IH")
        then show ?thesis using Cons sw Written False f
          by (subst client_write_deferred_loop.simps) simp
      qed
    qed
  qed
qed

lemma write_deferred_excess:
  "deferred_excess env c k \<Longrightarrow> deferred_excess env (client_write_deferred env c) k"
proof -
  assume a: "deferred_excess env c k"
  obtain r c1 where l: "client_write_deferred_loop env (Written 0) c = (r, c1)"
    by (cases "client_write_deferred_loop env (Written 0) c")
  have "deferred_excess env c1 k"
    using write_deferred_loop_excess [OF a, of "Written 0"] l by simp
  then have "deferred_excess env (client_set_expired c1) k"
    by (simp add: deferred_excess_def set_expired_fields)
  with \<open>deferred_excess env c1 k\<close> l show ?thesis
    by (simp add: client_write_deferred_def split: wres.splits)
qed

lemma write_deferred_expired:
  "client_is_expired c \<Longrightarrow> client_is_expired (client_write_deferred env c)"
proof -
  assume a: "client_is_expired c"
  obtain r c1 where l: "client_write_deferred_loop env (Written 0) c = (r, c1)"
    by (cases "client_write_deferred_loop env (Written 0) c")
  have "fd c1 = fd c" using write_deferred_loop_fd [of env "Written 0" c] l by simp
  with a have "client_is_expired c1" by (simp add: client_is_expired_def)
  with l show ?thesis
    by (simp add: client_write_deferred_def expired_set_expired split: wres.splits)
qed

lemma defer_output_ok:
  "deferred_ok env c \<Longrightarrow> deferred_ok env (client_defer_output env c d)"
  by (auto simp: deferred_ok_def client_defer_output_def Let_def deferred_inv_def
      client_is_expired_def client_set_expired_def deferred_account_snoc)

lemma write_deferred_ok:
  "deferred_ok env c \<Longrightarrow> deferred_ok env (client_write_deferred env c)"
  unfolding deferred_ok_def deferred_inv_excess
  using write_deferred_expired write_deferred_excess by blast

lemma write_direct_expired:
  "client_is_expired c \<Longrightarrow> client_is_expired (client_write_direct env c d)"
  using expired_set_expired [of c]
  by (simp add: client_write_direct_def client_is_expired_def sys_write_expired)

lemma write_direct_ok:
  assumes "deferred_ok env c"
  shows "deferred_ok env (client_write_direct env c d)"
proof (cases "client_is_expired c")
  case True
  then show ?thesis by (simp add: deferred_ok_def write_direct_expired)
next
  case False
  obtain x y where sw: "sys_write c d = (x, y)" by (cases "sys_write c d")
  note f = sys_write_fields [OF sw]
  from assms False f have "deferred_ok env y" by (simp add: deferred_ok_def deferred_inv_def)
  then have "deferred_ok env (client_defer_output env y d')" for d'
    by (rule defer_output_ok)
  moreover have "deferred_ok env (client_set_expired y)"
    by (simp add: deferred_ok_def expired_set_expired)
  ultimately show ?thesis using sw \<open>deferred_ok env y\<close>
    by (simp add: client_write_direct_def split: wres.splits)
qed

lemma send_buf_ok: "deferred_ok env (c\<lparr>send_buf := s\<rparr>) = deferred_ok env c"
  by (simp add: deferred_ok_def deferred_inv_def client_is_expired_def)

lemma write_output_ok:
  "deferred_ok env c \<Longrightarrow> deferred_ok env (client_write_output env c)"
  by (simp add: client_write_output_def send_buf_ok write_deferred_ok defer_output_ok
      write_direct_ok)

lemma write_loop_ok:
  "deferred_ok env c \<Longrightarrow> deferred_ok env (client_write_loop env c d)"
proof (induction env c d rule: client_write_loop.induct)
  case (1 env c data)
  show ?case
  proof (cases "data \<noteq> [] \<and> \<not> client_is_expired c")
    case False
    with 1 show ?thesis by (simp add: client_write_loop_stop)
  next
    case True
    define x where "x = min (sizeof_send_buf - send_buf_used c) (length data)"
    define xa where "xa = c\<lparr>send_buf := send_buf c @ take x data\<rparr>"
    define xb where "xb = (if sizeof_send_buf \<le> send_buf_used xa
          then client_write_output env xa else xa)"
    have "deferred_ok env xa" using "1.prems" by (simp add: xa_def send_buf_ok)
    then have "deferred_ok env xb" by (simp add: xb_def write_output_ok)
    with True x_def xa_def xb_def
    have "deferred_ok env (client_write_loop env xb (drop x data))" by (rule "1.IH")
    moreover have "client_write_loop env c data = client_write_loop env xb (drop x data)"
      using True by (simp add: client_write_loop_step Let_def x_def xa_def xb_def)
    ultimately show ?thesis by simp
  qed
qed

lemma write_ok: "deferred_ok env c \<Longrightarrow> deferred_ok env (client_write env c d)"
  by (simp add: client_write_def write_loop_ok)

lemma idle_fields_ok:
  "deferred_ok env (c\<lparr>idle_flags := a\<rparr>) = deferred_ok env c"
  "deferred_ok env (c\<lparr>idle_waiting := b\<rparr>) = deferred_ok env c"
  "deferred_ok env (c\<lparr>idle_subscriptions := a\<rparr>) = deferred_ok env c"
  "deferred_ok env (c\<lparr>lastTime := t\<rparr>) = deferred_ok env c"
  by (simp_all add: deferred_ok_def deferred_inv_def client_is_expired_def)

lemma printf_ok: "deferred_ok env c \<Longrightarrow> deferred_ok env (client_printf env c len s)"
  by (simp add: client_printf_def client_vprintf_def write_ok)

lemma idle_notify_loop_ok:
  "deferred_ok env c \<Longrightarrow> deferred_ok env (client_idle_notify_loop env flags i names c)"
  by (induction names arbitrary: i c) (simp_all add: printf_ok)

lemma idle_notify_ok: "deferred_ok env c \<Longrightarrow> deferred_ok env (client_idle_notify env c)"
  by (simp add: client_idle_notify_def Let_def idle_fields_ok client_puts_def write_ok
      idle_notify_loop_ok)

lemma idle_wait_ok: "deferred_ok env c \<Longrightarrow> deferred_ok env (snd (client_idle_wait env c flags))"
  by (simp add: client_idle_wait_def Let_def idle_notify_ok idle_fields_ok)

lemma idle_add_ok: "deferred_ok env c \<Longrightarrow> deferred_ok env (client_idle_add env flags c)"
  by (simp add: client_idle_add_def Let_def idle_notify_ok idle_fields_ok write_output_ok)

lemma client_new_ok:
  "list_all (deferred_ok env) (clients m) \<Longrightarrow>
     list_all (deferred_ok env) (clients (client_new env m fd0 uid0 script))"
  by (simp add: client_new_def client_init_def client_calloc_def deferred_ok_def
      deferred_inv_def deferred_account_def)

lemma defer_output_over:
  assumes "deferred_inv env c"
      and "client_max_output_buffer_size env < deferred_bytes c + (deferred_header env + length d)"
  shows "client_is_expired (client_defer_output env c d) \<and>
         deferred_send (client_defer_output env c d) = deferred_send c \<and>
         deferred_bytes (client_defer_output env c d) =
           deferred_account env (deferred_send c) + (deferred_header env + length d)"
  using assms expired_set_expired [of "c\<lparr>deferred_bytes := deferred_bytes c + (deferred_header env + length d)\<rparr>"]
  by (simp add: client_defer_output_def Let_def set_expired_fields deferred_inv_def)

subsection \<open>The order of the bytes\<close>

lemma write_deferred_loop_wire:
  "wire (snd (client_write_deferred_loop env r c)) = wire c"
proof (induction env r c rule: client_write_deferred_loop.induct)
  case (1 env ret c)
  show ?case
  proof (cases "deferred_send c")
    case Nil
    then show ?thesis by (subst client_write_deferred_loop.simps) simp
  next
    case (Cons buf rest)
    obtain x y where sw: "sys_write c buf = (x, y)" by (cases "sys_write c buf")
    note f = sys_write_fields [OF sw]
    show ?thesis
    proof (cases x)
      case (Failed e)
      with Cons sw f sys_write_failed [of c buf e y] show ?thesis
        by (subst client_write_deferred_loop.simps) (simp add: wire_def)
    next
      case (Written j)
      with sw have cnt: "j \<le> length buf" "sock_sent y = sock_sent c @ take j buf"
        using sys_write_count [of c buf j y] by simp_all
      show ?thesis
      proof (cases "j < length buf")
        case True
        with Cons sw Written f cnt show ?thesis
          by (subst client_write_deferred_loop.simps) (simp add: wire_def)
      next
        case False
        let ?c' = "y\<lparr>deferred_bytes := deferred_bytes y - (deferred_header env + length buf),
                   deferred_send := rest, lastTime := now env\<rparr>"
        from Cons sw [symmetric] Written False
        have "wire (snd (client_write_deferred_loop env (Written j) ?c')) = wire ?c'"
          by (rule "1.IH")
        also have "\<dots> = wire c" using cnt False Cons by (simp add: wire_def)
        finally show ?thesis using Cons sw Written False
          by (subst client_write_deferred_loop.simps) simp
      qed
    qed
  qed
qed

lemma set_expired_wire: "wire (client_set_expired c) = wire c"
  by (simp add: wire_def set_expired_fields)

lemma write_deferred_wire: "wire (client_write_deferred env c) = wire c"
proof -
  obtain r c1 where l: "client_write_deferred_loop env (Written 0) c = (r, c1)"
    by (cases "client_write_deferred_loop env (Written 0) c")
  then have "wire c1 = wire c" using write_deferred_loop_wire [of env "Written 0" c] by simp
  with l show ?thesis
    by (simp add: client_write_deferred_def set_expired_wire split: wres.splits)
qed

lemma defer_output_wire:
  "\<not> client_is_expired (client_defer_output env c d) \<Longrightarrow>
     wire (client_defer_output env c d) = wire c @ d"
  using expired_set_expired
  by (auto simp: client_defer_output_def Let_def wire_def split: if_splits)

lemma write_direct_wire:
  assumes "\<not> client_is_expired (client_write_direct env c d)"
      and "send_buf_used c = length d" and "deferred_send c = []"
  shows "wire (client_write_direct env c d) = wire c @ d"
proof -
  obtain x y where sw: "sys_write c d = (x, y)" by (cases "sys_write c d")
  note f = sys_write_fields [OF sw]
  show ?thesis
  proof (cases x)
    case (Failed e)
    show ?thesis
    proof (cases "e = EAGAIN \<or> e = EINTR")
      case True
      with sw Failed have eq: "client_write_direct env c d = client_defer_output env y d"
        by (simp add: client_write_direct_def)
      with assms(1) have "wire (client_defer_output env y d) = wire y @ d"
        by (simp add: defer_output_wire)
      moreover have "wire y = wire c"
        using sys_write_failed [of c d e y] sw Failed f by (simp add: wire_def)
      ultimately show ?thesis using eq by simp
    next
      case False
      with sw Failed have "client_write_direct env c d = client_set_expired y"
        by (simp add: client_write_direct_def)
      with assms(1) expired_set_expired [of y] show ?thesis by simp
    qed
  next
    case (Written j)
    with sw have cnt: "j \<le> length d" "sock_sent y = sock_sent c @ take j d"
      using sys_write_count [of c d j y] by simp_all
    have used: "send_buf_used y = length d" using assms(2) f by (simp add: send_buf_used_def)
    show ?thesis
    proof (cases "j < length d")
      case True
      with sw Written used
      have eq: "client_write_direct env c d = client_defer_output env y (drop j d)"
        by (simp add: client_write_direct_def)
      with assms(1) have "wire (client_defer_output env y (drop j d)) = wire y @ drop j d"
        by (simp add: defer_output_wire)
      moreover have "wire y = wire c @ take j d"
        using cnt f assms(3) by (simp add: wire_def)
      ultimately show ?thesis using eq by simp
    next
      case False
      with sw Written used have "client_write_direct env c d = y"
        by (simp add: client_write_direct_def)
      moreover have "wire y = wire c @ d" using cnt f False assms(3) by (simp add: wire_def)
      ultimately show ?thesis by simp
    qed
  qed
qed

lemma send_buf_expired: "client_is_expired (c\<lparr>send_buf := s\<rparr>) = client_is_expired c"
  by (simp add: client_is_expired_def)

lemma send_buf_wire: "wire (c\<lparr>send_buf := s\<rparr>) = wire c"
  by (simp add: wire_def)

lemma write_output_expired:
  "client_is_expired c \<Longrightarrow> client_is_expired (client_write_output env c)"
  by (simp add: client_write_output_def)

lemma write_output_stream:
  assumes "\<not> client_is_expired (client_write_output env c)"
  shows "out_stream (client_write_output env c) = out_stream c"
proof (cases "client_is_expired c \<or> send_buf_used c = 0")
  case True
  then show ?thesis by (auto simp: client_write_output_def)
next
  case False
  show ?thesis
  proof (cases "deferred_send c = []")
    case True
    with False have eq: "client_write_output env c =
        (client_write_direct env c (send_buf c))\<lparr>send_buf := []\<rparr>"
      by (simp add: client_write_output_def)
    with assms have "\<not> client_is_expired (client_write_direct env c (send_buf c))"
      by (simp add: send_buf_expired)
    then have "wire (client_write_direct env c (send_buf c)) = wire c @ send_buf c"
      using True by (simp add: write_direct_wire send_buf_used_def)
    then show ?thesis by (simp add: eq out_stream_def send_buf_wire)
  next
    case nonempty: False
    let ?c1 = "client_defer_output env c (send_buf c)"
    from False nonempty have eq: "client_write_output env c =
        (client_write_deferred env ?c1)\<lparr>send_buf := []\<rparr>"
      by (simp add: client_write_output_def)
    with assms have "\<not> client_is_expired (client_write_deferred env ?c1)"
      by (simp add: send_buf_expired)
    then have "\<not> client_is_expired ?c1" using write_deferred_expired by blast
    then have "wire ?c1 = wire c @ send_buf c" by (rule defer_output_wire)
    then show ?thesis by (simp add: eq out_stream_def send_buf_wire write_deferred_wire)
  qed
qed

lemma write_loop_stream:
  "\<not> client_is_expired (client_write_loop env c d) \<Longrightarrow>
     out_stream (client_write_loop env c d) = out_stream c @ d"
proof (induction env c d rule: client_write_loop.induct)
  case (1 env c data)
  show ?case
  proof (cases "data \<noteq> [] \<and> \<not> client_is_expired c")
    case False
    with "1.prems" show ?thesis by (auto simp: client_write_loop_stop)
  next
    case True
    define x where "x = min (sizeof_send_buf - send_buf_used c) (length data)"
    define xa where "xa = c\<lparr>send_buf := send_buf c @ take x data\<rparr>"
    define xb where "xb = (if sizeof_send_buf \<le> send_buf_used xa
          then client_write_output env xa else xa)"
    have step: "client_write_loop env c data = client_write_loop env xb (drop x data)"
      using True by (simp add: client_write_loop_step Let_def x_def xa_def xb_def)
    with "1.prems" have live: "\<not> client_is_expired (client_write_loop env xb (drop x data))"
      by simp
    then have liveb: "\<not> client_is_expired xb" using write_loop_expired [of xb env] by auto
    have "out_stream xa = out_stream c @ take x data"
      by (simp add: xa_def out_stream_def wire_def)
    moreover have "out_stream xb = out_stream xa"
      using liveb by (simp add: xb_def write_output_stream split: if_splits)
    moreover have "out_stream (client_write_loop env xb (drop x data)) = out_stream xb @ drop x data"
      using True x_def xa_def xb_def live by (rule "1.IH")
    ultimately show ?thesis using step by simp
  qed
qed

lemma write_stream:
  "\<not> client_is_expired (client_write env c d) \<Longrightarrow>
     out_stream (client_write env c d) = out_stream c @ d"
  by (simp add: client_write_def write_loop_stream split: if_splits)

lemma lastTime_expired: "client_is_expired (c\<lparr>lastTime := t\<rparr>) = client_is_expired c"
  by (simp add: client_is_expired_def)

lemma lastTime_stream: "out_stream (c\<lparr>lastTime := t\<rparr>) = out_stream c"
  by (simp add: out_stream_def wire_def)

subsection \<open>Two writes are one write of the concatenation\<close>

lemma write_loop_append:
  "client_write_loop env (client_write_loop env c a) b = client_write_loop env c (a @ b)"
proof (induction env c a rule: client_write_loop.induct)
  case (1 env c a)
  show ?case
  proof (cases "a \<noteq> [] \<and> \<not> client_is_expired c")
    case False
    then show ?thesis by (auto simp: write_loop_Nil write_loop_expired)
  next
    case True
    then have a: "a \<noteq> []" and live: "\<not> client_is_expired c" by simp_all
    define room where "room = sizeof_send_buf - send_buf_used c"
    define x where "x = min (sizeof_send_buf - send_buf_used c) (length a)"
    define xa where "xa = c\<lparr>send_buf := send_buf c @ take x a\<rparr>"
    define xb where "xb = (if sizeof_send_buf \<le> send_buf_used xa
          then client_write_output env xa else xa)"
    have stepa: "client_write_loop env c a = client_write_loop env xb (drop x a)"
      using True by (simp add: client_write_loop_step Let_def x_def xa_def xb_def)
    show ?thesis
    proof (cases "room \<le> length a")
      case True
      then have x: "x = room" by (simp add: x_def room_def)
      have m: "min (sizeof_send_buf - send_buf_used c) (length a + length b) = x"
        using True by (simp add: x room_def)
      have le: "x \<le> length a" using True x by simp
      have "client_write_loop env c (a @ b) = client_write_loop env xb (drop x a @ b)"
        using a live le by (simp add: client_write_loop_step [of "a @ b"] Let_def xa_def xb_def m)
      also have "\<dots> = client_write_loop env (client_write_loop env xb (drop x a)) b"
        using \<open>a \<noteq> [] \<and> \<not> client_is_expired c\<close> x_def xa_def xb_def
        by (rule "1.IH" [symmetric])
      finally show ?thesis using stepa by simp
    next
      case False
      then have short: "length a < room" by simp
      then have x: "x = length a" by (simp add: x_def room_def)
      have xa: "xa = c\<lparr>send_buf := send_buf c @ a\<rparr>" by (simp add: xa_def x)
      have notfull: "\<not> sizeof_send_buf \<le> send_buf_used xa"
        using short by (simp add: xa send_buf_used_def room_def)
      then have xb: "xb = xa" by (simp add: xb_def)
      have lhs: "client_write_loop env (client_write_loop env c a) b = client_write_loop env xa b"
        using stepa by (simp add: xb x write_loop_Nil)
      show ?thesis
      proof (cases "b = []")
        case True
        then show ?thesis by (simp add: write_loop_Nil)
      next
        case bne: False
        have livea: "\<not> client_is_expired xa" using live by (simp add: xa send_buf_expired)
        define y where "y = min (sizeof_send_buf - send_buf_used xa) (length b)"
        have used: "send_buf_used xa = send_buf_used c + length a"
          by (simp add: xa send_buf_used_def)
        have m: "min (sizeof_send_buf - send_buf_used c) (length a + length b) = length a + y"
          using short unfolding y_def used room_def by arith
        have "client_write_loop env c (a @ b) =
              client_write_loop env
                (flush_if_full env (c\<lparr>send_buf := send_buf c @ take (length a + y) (a @ b)\<rparr>))
                (drop (length a + y) (a @ b))"
          using a live m by (simp add: write_loop_step' [of "a @ b"])
        also have "\<dots> = client_write_loop env
                (flush_if_full env (xa\<lparr>send_buf := send_buf xa @ take y b\<rparr>)) (drop y b)"
          by (simp add: xa)
        also have "\<dots> = client_write_loop env xa b"
          using bne livea by (simp add: write_loop_step' [of b] y_def)
        finally show ?thesis using lhs by simp
      qed
    qed
  qed
qed

lemma client_write_append:
  "client_write env (client_write env c a) b = client_write env c (a @ b)"
  by (simp add: client_write_is_loop write_loop_append)

lemma client_write_Nil: "client_write env c [] = c"
  by (simp add: client_write_is_loop write_loop_Nil)

subsection \<open>A write that fits the send buffer, a flush that the socket takes\<close>

lemma write_small:
  assumes "\<not> client_is_expired c" and "send_buf_used c + length d < sizeof_send_buf"
  shows "client_write env c d = c\<lparr>send_buf := send_buf c @ d\<rparr>"
proof (cases "d = []")
  case True
  then show ?thesis by (simp add: client_write_Nil)
next
  case False
  have m: "min (sizeof_send_buf - send_buf_used c) (length d) = length d"
    using assms(2) by simp
  have "\<not> sizeof_send_buf \<le> send_buf_used (c\<lparr>send_buf := send_buf c @ d\<rparr>)"
    using assms(2) by (simp add: send_buf_used_def)
  then show ?thesis
    using False assms(1)
    by (simp add: client_write_is_loop client_write_loop_step Let_def m write_loop_Nil)
qed

lemma flush_accepted:
  assumes "\<not> client_is_expired c" and "send_buf c \<noteq> []" and "deferred_send c = []"
      and "sock_script c = Written n # rest" and "length (send_buf c) \<le> n"
  shows "client_write_output env c =
           c\<lparr>sock_script := rest, sock_sent := sock_sent c @ send_buf c, send_buf := []\<rparr>"
proof -
  have "sys_write c (send_buf c) =
      (Written (length (send_buf c)), c\<lparr>sock_script := rest, sock_sent := sock_sent c @ send_buf c\<rparr>)"
    using assms by (simp add: sys_write_def client_is_expired_def min_def)
  then show ?thesis
    using assms by (simp add: client_write_output_def client_write_direct_def send_buf_used_def)
qed

subsection \<open>The idle notification as one write\<close>

lemma bit_test: "(flags AND push_bit i 1 AND subs = 0) = (\<not> bit (flags AND subs) i)"
  by (simp only: bit_iff_and_push_bit_not_eq_0 [of "flags AND subs" i] ac_simps) simp

lemma bit_test': "(flags AND 2 ^ i AND subs = 0) = (\<not> bit (flags AND subs) i)"
  using bit_test [of flags i subs] by simp

lemma idle_notify_loop_write:
  "client_idle_notify_loop env flags i names c =
     client_write env c (idle_changed (flags AND idle_subscriptions c) i names)"
proof (induction names arbitrary: i c)
  case Nil
  show ?case by (simp add: idle_changed_def client_write_Nil)
next
  case (Cons name names)
  have subs: "idle_subscriptions (client_write env c s) = idle_subscriptions c" for s
    using frame_fields(11) [OF frame_write] .
  show ?case
  proof (cases "bit (flags AND idle_subscriptions c) i")
    case True
    then show ?thesis
      by (simp add: bit_test' Cons.IH client_printf_def client_vprintf_def subs
          client_write_append idle_changed_def)
  next
    case False
    then show ?thesis
      by (simp add: bit_test' Cons.IH idle_changed_def)
  qed
qed

lemma idle_notify_write:
  "client_idle_notify env c =
     (client_write env (c\<lparr>idle_flags := 0, idle_waiting := False\<rparr>)
        (idle_response (idle_names env) (idle_flags c AND idle_subscriptions c)))
     \<lparr>lastTime := now env\<rparr>"
  by (simp add: client_idle_notify_def Let_def idle_notify_loop_write client_puts_def
      client_write_append idle_response_def)

lemma idle_wait_eq:
  "client_idle_wait env c flags =
     (if idle_flags c AND flags \<noteq> 0
      then (True, (client_write env (c\<lparr>idle_waiting := False, idle_subscriptions := flags, idle_flags := 0\<rparr>)
                     (idle_response (idle_names env) (idle_flags c AND flags)))\<lparr>lastTime := now env\<rparr>)
      else (False, c\<lparr>idle_waiting := True, idle_subscriptions := flags\<rparr>))"
  by (cases c) (simp add: client_idle_wait_def Let_def idle_notify_write)

lemma idle_add_eq:
  "client_idle_add env flags c =
     (if client_is_expired c then c
      else if idle_waiting c \<and> (idle_flags c OR flags) AND idle_subscriptions c \<noteq> 0
      then client_write_output env
             ((client_write env (c\<lparr>idle_flags := 0, idle_waiting := False\<rparr>)
                 (idle_response (idle_names env) ((idle_flags c OR flags) AND idle_subscriptions c)))
              \<lparr>lastTime := now env\<rparr>)
      else c\<lparr>idle_flags := idle_flags c OR flags\<rparr>)"
  by (simp add: client_idle_add_def Let_def idle_notify_write)

lemma idle_add_notified:
  assumes "\<not> client_is_expired c" and "idle_waiting c"
      and "(idle_flags c OR flags) AND idle_subscriptions c \<noteq> 0"
  shows "idle_flags (client_idle_add env flags c) = 0"
    and "\<not> idle_waiting (client_idle_add env flags c)"
    and "\<not> client_is_expired (client_idle_add env flags c) \<Longrightarrow>
          out_stream (client_idle_add env flags c) =
            out_stream c @ idle_response (idle_names env) ((idle_flags c OR flags) AND idle_subscriptions c)"
    and "\<not> client_is_expired (client_idle_add env flags c) \<Longrightarrow>
          send_buf (client_idle_add env flags c) = []"
proof -
  let ?c0 = "c\<lparr>idle_flags := 0, idle_waiting := False\<rparr>"
  let ?txt = "idle_response (idle_names env) ((idle_flags c OR flags) AND idle_subscriptions c)"
  let ?c1 = "(client_write env ?c0 ?txt)\<lparr>lastTime := now env\<rparr>"
  have eq: "client_idle_add env flags c = client_write_output env ?c1"
    using assms by (simp add: idle_add_eq)
  have f1: "frame ?c1 = frame ?c0"
    using frame_write [of env ?c0 ?txt] by (simp add: frame_def)
  have f2: "frame (client_write_output env ?c1) = frame ?c0"
    using frame_write_output [of env ?c1] f1 by simp
  note fr = frame_fields [OF f2]
  show "idle_flags (client_idle_add env flags c) = 0" using fr(10) eq by simp
  show "\<not> idle_waiting (client_idle_add env flags c)" using fr(9) eq by simp
  {
    assume live: "\<not> client_is_expired (client_idle_add env flags c)"
    then have l2: "\<not> client_is_expired (client_write_output env ?c1)" using eq by simp
    then have l1: "\<not> client_is_expired ?c1" using write_output_expired by blast
    then have l0: "\<not> client_is_expired (client_write env ?c0 ?txt)"
      by (simp add: lastTime_expired)
    have "out_stream (client_write_output env ?c1) = out_stream ?c1"
      using l2 by (rule write_output_stream)
    also have "\<dots> = out_stream (client_write env ?c0 ?txt)" by (simp add: lastTime_stream)
    also have "\<dots> = out_stream ?c0 @ ?txt" using l0 by (rule write_stream)
    also have "out_stream ?c0 = out_stream c" by (simp add: out_stream_def wire_def)
    finally show "out_stream (client_idle_add env flags c) = out_stream c @ ?txt"
      using eq by simp
    have "idle_response (idle_names env) ((idle_flags c OR flags) AND idle_subscriptions c) \<noteq> []"
      by (simp add: idle_response_def)
    show "send_buf (client_idle_add env flags c) = []"
    proof (cases "send_buf_used ?c1 = 0")
      case True
      then show ?thesis using eq by (simp add: client_write_output_def send_buf_used_def)
    next
      case False
      with l1 show ?thesis using eq by (simp add: client_write_output_flushed)
    qed
  }
qed

subsection \<open>Queueing lines\<close>

lemma process_line_queue:
  assumes "cmd_list_OK c \<ge> 0" and "\<not> idle_waiting c"
      and "line \<noteq> ''noidle''" and "line \<noteq> CLIENT_LIST_MODE_END"
  shows "client_process_line env c line =
     (if cmd_list_size c + (length line + 1) \<le> client_max_command_list_size env
      then (1, c\<lparr>cmd_list_size := cmd_list_size c + (length line + 1),
                  cmd_list := line # cmd_list c\<rparr>)
      else (COMMAND_RETURN_CLOSE env,
            c\<lparr>cmd_list_size := cmd_list_size c + (length line + 1)\<rparr>))"
  using assms by (simp add: client_process_line_def new_cmd_list_ptr_def Let_def)

lemma queue_lines:
  assumes "cmd_list_OK c \<ge> 0" and "\<not> idle_waiting c"
      and "\<forall>l \<in> set ls. l \<noteq> ''noidle'' \<and> l \<noteq> CLIENT_LIST_MODE_END"
      and "cmd_list_size c + line_sizes ls \<le> client_max_command_list_size env"
  shows "fold (\<lambda>l c. snd (client_process_line env c l)) ls c =
           c\<lparr>cmd_list_size := cmd_list_size c + line_sizes ls,
             cmd_list := rev ls @ cmd_list c\<rparr>"
  using assms
proof (induction ls arbitrary: c)
  case Nil
  show ?case by (simp add: line_sizes_def)
next
  case (Cons l ls)
  let ?c1 = "c\<lparr>cmd_list_size := cmd_list_size c + (length l + 1), cmd_list := l # cmd_list c\<rparr>"
  have fit: "cmd_list_size c + (length l + 1) \<le> client_max_command_list_size env"
    using Cons.prems(4) by (simp add: line_sizes_def)
  have "client_process_line env c l = (1, ?c1)"
    using Cons.prems fit by (simp add: process_line_queue)
  moreover have "fold (\<lambda>l c. snd (client_process_line env c l)) ls ?c1 =
           ?c1\<lparr>cmd_list_size := cmd_list_size ?c1 + line_sizes ls,
             cmd_list := rev ls @ cmd_list ?c1\<rparr>"
    using Cons.prems by (intro Cons.IH) (simp_all add: line_sizes_def)
  ultimately show ?case by (simp add: line_sizes_def add.assoc)
qed

subsection \<open>The list outside command-list mode\<close>

text \<open>
  Outside command-list mode the list is empty, and a line keeps it so, for a
  collaborator that leaves \<open>cmd_list\<close> and \<open>cmd_list_OK\<close> alone.
\<close>

lemma normal_mode_list_empty:
  assumes inv: "cmd_list_OK c < 0 \<longrightarrow> cmd_list c = []"
      and cmd: "\<And>l x. cmd_list (snd (command_process env l x)) = cmd_list x \<and>
                        cmd_list_OK (snd (command_process env l x)) = cmd_list_OK x"
      and lst: "\<And>ok ls x. cmd_list_OK (snd (command_process_list env ok ls x)) = cmd_list_OK x"
  shows "cmd_list_OK (snd (client_process_line env c line)) < 0 \<longrightarrow>
         cmd_list (snd (client_process_line env c line)) = []"
proof -
  have out: "cmd_list (client_write_output env x) = cmd_list x \<and>
             cmd_list_OK (client_write_output env x) = cmd_list_OK x" for x
    using frame_fields(5,6) [OF frame_write_output] by blast
  have ok: "cmd_list (command_success env x) = cmd_list x \<and>
            cmd_list_OK (command_success env x) = cmd_list_OK x" for x
    unfolding command_success_def client_puts_def
    using frame_fields(5,6) [OF frame_write] by blast
  show ?thesis
  proof (cases "line = ''noidle''")
    case True
    with inv show ?thesis by (simp add: client_process_line_def out ok)
  next
    case False
    show ?thesis
    proof (cases "idle_waiting c")
      case True
      with False inv show ?thesis by (simp add: client_process_line_def)
    next
      case quiet: False
      show ?thesis
      proof (cases "cmd_list_OK c \<ge> 0")
        case True
        show ?thesis
        proof (cases "line = CLIENT_LIST_MODE_END")
          case True
          obtain ret c2 where r: "command_process_list env (cmd_list_OK c) (rev (cmd_list c))
              (c\<lparr>cmd_list := rev (cmd_list c)\<rparr>) = (ret, c2)"
            by (cases "command_process_list env (cmd_list_OK c) (rev (cmd_list c))
              (c\<lparr>cmd_list := rev (cmd_list c)\<rparr>)")
          have "cmd_list_OK c2 = cmd_list_OK c"
            using lst [of "cmd_list_OK c" "rev (cmd_list c)" "c\<lparr>cmd_list := rev (cmd_list c)\<rparr>"] r
            by simp
          with \<open>cmd_list_OK c \<ge> 0\<close> True False quiet r show ?thesis
            by (simp add: client_process_line_def Let_def)
        next
          case other: False
          with True False quiet show ?thesis by (simp add: process_line_queue)
        qed
      next
        case normal: False
        then have empty: "cmd_list c = []" using inv by simp
        obtain ret c1 where r: "command_process env line c = (ret, c1)"
          by (cases "command_process env line c")
        have "cmd_list c1 = [] \<and> cmd_list_OK c1 = cmd_list_OK c"
          using cmd [of line c] r empty by simp
        with normal False quiet r show ?thesis
          by (simp add: client_process_line_def Let_def out ok)
      qed
    qed
  qed
qed

subsection \<open>Finding a line in the buffer\<close>

lemma memchr_absent: "ch \<notin> set xs \<Longrightarrow> memchr xs ch = None"
  by (induction xs) auto

lemma memchr_first: "ch \<notin> set xs \<Longrightarrow> memchr (xs @ ch # ys) ch = Some (length xs)"
  by (induction xs) auto

lemma c_string_terminated: "c_string (xs @ CHR 0x00 # ys) = c_string xs"
  unfolding c_string_def by (induction xs) auto

lemma input_loop_done:
  "memchr (take (e - start) (drop start (buffer c))) (CHR 0x0A) = None \<Longrightarrow>
     client_input_loop env e start c = (None, start, c)"
  by (subst client_input_loop.simps) simp

lemma input_loop_line:
  assumes "memchr (take (e - start) (drop start (buffer c))) (CHR 0x0A) = Some k"
  shows "client_input_loop env e start c =
          (let newline = start + k;
               next = newline + 1;
               newline' = (if newline > start \<and> buffer c ! (newline - 1) = CHR 0x0D
                           then newline - 1 else newline);
               c1 = c\<lparr>buffer := (buffer c)[newline' := CHR 0x00]\<rparr>
           in case client_process_line env c1 (c_string (drop start (buffer c1))) of
                (ret, c2) \<Rightarrow>
                  if ret = COMMAND_RETURN_KILL env \<or> ret = COMMAND_RETURN_CLOSE env
                  then (Some ret, start, c2)
                  else if client_is_expired c2 then (Some (COMMAND_RETURN_CLOSE env), start, c2)
                  else client_input_loop env e next c2)"
  using assms by (subst client_input_loop.simps) simp

lemma terminated_line:
  "c_string ((line @ [CHR 0x0A])[length (strip_cr line) := CHR 0x00]) = c_string (strip_cr line)"
proof (cases "line \<noteq> [] \<and> last line = CHR 0x0D")
  case True
  then obtain l where l: "line = l @ [CHR 0x0D]" by (metis append_butlast_last_id)
  then have "strip_cr line = l" by (simp add: strip_cr_def)
  moreover have "(line @ [CHR 0x0A])[length l := CHR 0x00] = l @ CHR 0x00 # [CHR 0x0A]"
    by (simp add: l list_update_append)
  ultimately show ?thesis by (simp add: c_string_terminated)
next
  case False
  then have "strip_cr line = line" by (auto simp: strip_cr_def)
  then show ?thesis by (simp add: c_string_terminated)
qed

lemma input_loop_plain_line:
  assumes buf: "buffer c = pre @ line @ CHR 0x0A # rest"
      and start: "start = length pre" and e: "e = length (buffer c)"
      and nolf: "CHR 0x0A \<notin> set line" and nonul: "CHR 0x00 \<notin> set line"
      and nocr: "line = [] \<or> last line \<noteq> CHR 0x0D"
  shows "client_input_loop env e start c =
     (case client_process_line env (c\<lparr>buffer := pre @ line @ CHR 0x00 # rest\<rparr>) line of
        (ret, c2) \<Rightarrow>
          if ret = COMMAND_RETURN_KILL env \<or> ret = COMMAND_RETURN_CLOSE env
          then (Some ret, start, c2)
          else if client_is_expired c2 then (Some (COMMAND_RETURN_CLOSE env), start, c2)
          else client_input_loop env e (start + length line + 1) c2)"
proof -
  have found: "memchr (take (e - start) (drop start (buffer c))) (CHR 0x0A) = Some (length line)"
    using nolf by (simp add: buf start e memchr_first)
  have nl: "(if start + length line > start \<and> buffer c ! (start + length line - 1) = CHR 0x0D
             then start + length line - 1 else start + length line) = start + length line"
  proof (cases "line = []")
    case True
    then show ?thesis by simp
  next
    case False
    then have idx: "start + length line - 1 = length pre + (length line - 1)"
      by (cases line) (simp_all add: start)
    have "buffer c ! (start + length line - 1) = (line @ CHR 0x0A # rest) ! (length line - 1)"
      unfolding idx buf by (rule nth_append_length_plus)
    also have "\<dots> = last line"
      using False by (simp add: nth_append last_conv_nth)
    finally have "buffer c ! (start + length line - 1) = last line" .
    with nocr False show ?thesis by simp
  qed
  have upd: "(buffer c)[start + length line := CHR 0x00] = pre @ line @ CHR 0x00 # rest"
    by (simp add: buf start list_update_append)
  have "c_string line = line"
    using nonul by (simp add: c_string_def takeWhile_eq_all_conv) metis
  then have str: "c_string (drop start (buffer (c\<lparr>buffer := pre @ line @ CHR 0x00 # rest\<rparr>))) = line"
    by (simp add: start c_string_terminated)
  show ?thesis
    unfolding input_loop_line [OF found] Let_def nl upd str
    by (rule refl)
qed

subsection \<open>Computing with the examples\<close>

lemma payload_simps:
  "length (payload n) = n"
  "(payload n = []) = (n = 0)"
  "take k (payload n) = payload (min k n)"
  "drop k (payload n) = payload (n - k)"
  by (simp_all add: payload_def)

lemma example_client_fields:
  "buffer (example_client s) = []" "bufferPos (example_client s) = 0"
  "fd (example_client s) = 5" "cmd_list (example_client s) = []"
  "cmd_list_OK (example_client s) = -1" "cmd_list_size (example_client s) = 0"
  "deferred_send (example_client s) = []" "deferred_bytes (example_client s) = 0"
  "send_buf (example_client s) = []" "idle_waiting (example_client s) = False"
  "idle_flags (example_client s) = 0" "idle_subscriptions (example_client s) = 0"
  "sock_script (example_client s) = s" "lastTime (example_client s) = 1000"
  "sock_sent (example_client s) = ''OK MPD 0.14.0'' @ [CHR 0x0A]"
  by (simp_all add: example_client_def client_new_def num_clients_def client_init_def
      client_calloc_def example_env_def GREETING_def)

lemma example_env_fields:
  "client_max_command_list_size example_env = 2097152"
  "client_max_output_buffer_size example_env = 8388608"
  "COMMAND_RETURN_KILL example_env = 10" "COMMAND_RETURN_CLOSE example_env = 20"
  "deferred_header example_env = 8" "now example_env = 1000"
  "idle_names example_env = [''database'', ''stored_playlist'', ''playlist'', ''player'',
     ''mixer'', ''output'', ''options'']"
  "command_process example_env = (\<lambda>line c. (0, c))"
  "command_process_list example_env = (\<lambda>ok list c. (0, c))"
  by (simp_all add: example_env_def)

lemma small_env_fields:
  "client_max_output_buffer_size small_env = 1024" "deferred_header small_env = 8"
  by (simp_all add: small_env_def example_env_def)

lemma example_client_live: "\<not> client_is_expired (example_client s)"
  by (simp add: client_is_expired_def example_client_fields)

lemma pending_client_fields:
  "fd pending_client = 5" "send_buf pending_client = []" "idle_waiting pending_client = False"
  "idle_flags pending_client = 8" "sock_script pending_client = []"
  "deferred_send pending_client = []"
  by (simp_all add: pending_client_def example_client_fields)

lemma waiting_client_fields:
  "fd (waiting_client s) = 5" "send_buf (waiting_client s) = []"
  "idle_waiting (waiting_client s) = True" "idle_flags (waiting_client s) = 0"
  "idle_subscriptions (waiting_client s) = 8" "sock_script (waiting_client s) = s"
  "deferred_send (waiting_client s) = []" "cmd_list_OK (waiting_client s) = -1"
  "sock_sent (waiting_client s) = ''OK MPD 0.14.0'' @ [CHR 0x0A]"
  by (simp_all add: waiting_client_def example_client_fields)

lemma player_response:
  "idle_response (idle_names example_env) 8 = player_changed"
  by (simp add: idle_response_def idle_changed_def example_env_fields fmt_changed_def
      player_changed_def)

lemma marker_facts:
  "CLIENT_LIST_MODE_BEGIN \<noteq> ''noidle''" "CLIENT_LIST_MODE_END \<noteq> ''noidle''"
  "''ping'' \<noteq> CLIENT_LIST_MODE_END"
  "length CLIENT_LIST_MODE_BEGIN = 18" "length CLIENT_LIST_MODE_END = 16"
  "CHR 0x0A \<notin> set CLIENT_LIST_MODE_BEGIN" "CHR 0x00 \<notin> set CLIENT_LIST_MODE_BEGIN"
  "last CLIENT_LIST_MODE_BEGIN \<noteq> CHR 0x0D"
  "CHR 0x0A \<notin> set CLIENT_LIST_MODE_END" "CHR 0x00 \<notin> set CLIENT_LIST_MODE_END"
  "last CLIENT_LIST_MODE_END \<noteq> CHR 0x0D"
  by (simp_all add: CLIENT_LIST_MODE_BEGIN_def CLIENT_LIST_MODE_END_def)

lemma payload_neq: "length s \<noteq> n \<Longrightarrow> payload n \<noteq> s"
  by (auto simp: payload_simps)

lemma payload_plain:
  "CHR 0x0A \<notin> set (payload n)" "c_string (payload n) = payload n"
  "strip_cr (payload n) = payload n"
proof -
  show "CHR 0x0A \<notin> set (payload n)" by (simp add: payload_def)
  show "c_string (payload n) = payload n" by (simp add: payload_def c_string_def)
  have "last (payload n) = CHR ''a''" if "payload n \<noteq> []"
    using that by (cases n) (simp_all add: payload_def)
  then show "strip_cr (payload n) = payload n" by (auto simp: strip_cr_def)
qed

lemma line_env_fields:
  "COMMAND_RETURN_KILL (line_env x) = 10" "COMMAND_RETURN_CLOSE (line_env x) = 20"
  "command_process (line_env x) x c = (0, c)"
  "l \<noteq> x \<Longrightarrow> command_process (line_env x) l c = (20, c)"
  by (simp_all add: line_env_def example_env_fields)

lemma command_line_ok:
  assumes "line \<noteq> ''noidle''" and "line \<noteq> CLIENT_LIST_MODE_BEGIN"
      and "line \<noteq> CLIENT_LIST_OK_MODE_BEGIN"
      and "\<not> idle_waiting c" and "cmd_list_OK c < 0"
      and "command_process env line c = (0, c)" and "COMMAND_RETURN_CLOSE env \<noteq> 0"
      and "\<not> client_is_expired c"
      and "send_buf c = []" and "deferred_send c = []" and "sock_script c = Written n # rest"
      and "3 \<le> n"
  shows "client_process_line env c line =
           (0, (c\<lparr>send_buf := ''OK'' @ [CHR 0x0A]\<rparr>)
                 \<lparr>sock_script := rest, sock_sent := sock_sent c @ ''OK'' @ [CHR 0x0A],
                  send_buf := []\<rparr>)"
proof -
  let ?ok = "''OK'' @ [CHR 0x0A]"
  have w: "client_write env c ?ok = c\<lparr>send_buf := send_buf c @ ?ok\<rparr>"
    using assms(8) by (rule write_small) (simp add: send_buf_used_def sizeof_send_buf_def assms)
  have f: "client_write_output env (c\<lparr>send_buf := ?ok\<rparr>) =
      (c\<lparr>send_buf := ?ok\<rparr>)\<lparr>sock_script := rest,
          sock_sent := sock_sent (c\<lparr>send_buf := ?ok\<rparr>) @ send_buf (c\<lparr>send_buf := ?ok\<rparr>),
          send_buf := []\<rparr>"
    using assms by (intro flush_accepted [where n = n]) (simp_all add: client_is_expired_def)
  show ?thesis
    using assms w f
    by (simp add: client_process_line_def command_success_def client_puts_def)
qed

lemma command_line_close:
  assumes "line \<noteq> ''noidle''" and "line \<noteq> CLIENT_LIST_MODE_BEGIN"
      and "line \<noteq> CLIENT_LIST_OK_MODE_BEGIN"
      and "\<not> idle_waiting c" and "cmd_list_OK c < 0"
      and "command_process env line c = (r, c2)" and "r = COMMAND_RETURN_CLOSE env"
  shows "client_process_line env c line = (r, c2)"
  using assms by (simp add: client_process_line_def)

lemma payload_cr:
  "length (payload n @ [CHR 0x0D]) = Suc n"
  "CHR 0x0A \<notin> set (payload n @ [CHR 0x0D])" "CHR 0x00 \<notin> set (payload n @ [CHR 0x0D])"
  "last (payload n @ [CHR 0x0D]) = CHR 0x0D" "butlast (payload n @ [CHR 0x0D]) = payload n"
  by (simp_all add: payload_def)

lemma payload_text:
  "CHR 0x00 \<notin> set (payload n)" "n \<noteq> 0 \<Longrightarrow> last (payload n) = CHR ''a''"
  by (simp_all add: payload_def)

lemma queued_client_fields:
  "fd (queued_client s) = 5" "send_buf (queued_client s) = ''hi''"
  "deferred_send (queued_client s) = [''low'']" "deferred_bytes (queued_client s) = 11"
  "sock_script (queued_client s) = s"
  "sock_sent (queued_client s) = ''OK MPD 0.14.0'' @ [CHR 0x0A]"
  by (simp_all add: queued_client_def example_client_fields)

lemma queued_drain:
  "client_write_deferred small_env (queued_client [Written 2]) =
     (queued_client [Written 2])
       \<lparr>sock_script := [], sock_sent := ''OK MPD 0.14.0'' @ [CHR 0x0A] @ ''lo'',
        deferred_bytes := 9, deferred_send := [''w'']\<rparr>"
proof -
  have sw: "sys_write (queued_client [Written 2]) ''low'' =
      (Written 2, (queued_client [Written 2])
         \<lparr>sock_script := [], sock_sent := ''OK MPD 0.14.0'' @ [CHR 0x0A] @ ''lo''\<rparr>)"
    by (simp add: sys_write_def queued_client_fields)
  have "client_write_deferred_loop small_env (Written 0) (queued_client [Written 2]) =
      (Written 2, (queued_client [Written 2])
         \<lparr>sock_script := [], sock_sent := ''OK MPD 0.14.0'' @ [CHR 0x0A] @ ''lo'',
          deferred_bytes := 9, deferred_send := [''w'']\<rparr>)"
    by (subst client_write_deferred_loop.simps) (simp add: sw queued_client_fields)
  then show ?thesis by (simp add: client_write_deferred_def)
qed

lemma queued_flush:
  "client_write_output small_env (queued_client [Written 2]) =
     (queued_client [Written 2])
       \<lparr>deferred_bytes := 21, deferred_send := [''low'', ''hi''],
        sock_script := [], sock_sent := ''OK MPD 0.14.0'' @ [CHR 0x0A] @ ''lo'',
        deferred_bytes := 19, deferred_send := [''w'', ''hi''], send_buf := []\<rparr>"
proof -
  let ?q = "queued_client [Written 2]"
  let ?d = "?q\<lparr>deferred_bytes := 21, deferred_send := [''low'', ''hi'']\<rparr>"
  have d: "client_defer_output small_env ?q ''hi'' = ?d"
    by (simp add: client_defer_output_def Let_def small_env_fields queued_client_fields)
  have sw: "sys_write ?d ''low'' =
      (Written 2, ?d\<lparr>sock_script := [], sock_sent := ''OK MPD 0.14.0'' @ [CHR 0x0A] @ ''lo''\<rparr>)"
    by (simp add: sys_write_def queued_client_fields)
  have "client_write_deferred_loop small_env (Written 0) ?d =
      (Written 2, ?d\<lparr>sock_script := [], sock_sent := ''OK MPD 0.14.0'' @ [CHR 0x0A] @ ''lo'',
          deferred_bytes := 19, deferred_send := [''w'', ''hi'']\<rparr>)"
    by (subst client_write_deferred_loop.simps) (simp add: sw queued_client_fields)
  then have w: "client_write_deferred small_env ?d =
      ?d\<lparr>sock_script := [], sock_sent := ''OK MPD 0.14.0'' @ [CHR 0x0A] @ ''lo'',
          deferred_bytes := 19, deferred_send := [''w'', ''hi'']\<rparr>"
    by (simp add: client_write_deferred_def)
  show ?thesis
    using w
    by (simp add: client_write_output_def client_is_expired_def send_buf_used_def
        queued_client_fields d)
qed

lemma small_write_direct:
  "client_write_direct small_env ((example_client [])\<lparr>send_buf := payload 4096\<rparr>) (payload 4096)
   = (example_client [])\<lparr>send_buf := payload 4096, fd := -1, deferred_bytes := 4104\<rparr>"
proof -
  let ?c = "(example_client [])\<lparr>send_buf := payload 4096\<rparr>"
  have sw: "sys_write ?c (payload 4096) = (Failed EAGAIN, ?c)"
    by (simp add: sys_write_def example_client_fields)
  have "client_defer_output small_env ?c (payload 4096) =
          client_set_expired (?c\<lparr>deferred_bytes := 4104\<rparr>)"
    by (simp add: client_defer_output_def Let_def small_env_fields payload_simps
        example_client_fields)
  also have "\<dots> = ?c\<lparr>deferred_bytes := 4104, fd := -1\<rparr>"
    by (simp add: client_set_expired_def example_client_fields)
  also have "\<dots> = (example_client [])\<lparr>send_buf := payload 4096, fd := -1, deferred_bytes := 4104\<rparr>"
    by (cases "example_client []") simp
  finally show ?thesis by (simp add: client_write_direct_def sw)
qed

lemma small_flush:
  "client_write_output small_env ((example_client [])\<lparr>send_buf := payload 4096\<rparr>)
    = (example_client [])\<lparr>fd := -1, deferred_bytes := 4104\<rparr>"
proof -
  let ?c = "(example_client [])\<lparr>send_buf := payload 4096\<rparr>"
  have "\<not> client_is_expired ?c" "send_buf_used ?c = 4096" "deferred_send ?c = []"
       "send_buf ?c = payload 4096"
    by (simp_all add: client_is_expired_def send_buf_used_def payload_simps example_client_fields)
  then have "client_write_output small_env ?c =
      (client_write_direct small_env ?c (payload 4096))\<lparr>send_buf := []\<rparr>"
    by (simp add: client_write_output_def)
  also have "\<dots> = (example_client [])\<lparr>fd := -1, deferred_bytes := 4104\<rparr>"
    unfolding small_write_direct
    using example_client_fields(9) [of "[]"] by (cases "example_client []") simp
  finally show ?thesis .
qed

section \<open>Properties\<close>

subsection \<open>Formatted output of no length\<close>

text \<open>
  C10. When the formatted length is zero or negative, \<^verbatim>\<open>client_vprintf\<close>, and with it
  \<^verbatim>\<open>client_printf\<close>, returns the client as it was: nothing is written and no field
  changes. Output can therefore only come from a strictly positive length.
\<close>

theorem client_vprintf_nonpositive:
  assumes "len \<le> 0"
  shows "client_vprintf env c len formatted = c \<and> client_printf env c len formatted = c"
  using assms by (simp add: client_printf_def client_vprintf_def)

theorem client_vprintf_nonpositive_witness:
  "client_vprintf example_env (example_client []) (-1) ''changed: x'' = example_client [] \<and>
   client_printf example_env (example_client []) 0 [] = example_client []"
  using client_vprintf_nonpositive [of "-1" example_env "example_client []" "''changed: x''"]
        client_vprintf_nonpositive [of 0 example_env "example_client []" "[]"]
  by simp

subsection \<open>The cap on a command list\<close>

text \<open>
  C7. In command-list mode a line to be queued is accounted as its length plus one.
  It is prepended to the list exactly when the running \<open>cmd_list_size\<close>, this line
  included, is at most \<open>client_max_command_list_size\<close>: a line that brings the size to
  the cap itself is queued, and one that brings it a single byte past the cap makes
  \<^verbatim>\<open>client_process_line\<close> return \<open>COMMAND_RETURN_CLOSE\<close> with the list as it was.
\<close>

theorem cmd_list_size_cap:
  assumes "cmd_list_OK c \<ge> 0" and "\<not> idle_waiting c"
      and "line \<noteq> ''noidle''" and "line \<noteq> CLIENT_LIST_MODE_END"
  shows "(cmd_list_size c + (length line + 1) \<le> client_max_command_list_size env \<longrightarrow>
            client_process_line env c line =
              (1, c\<lparr>cmd_list_size := cmd_list_size c + (length line + 1),
                     cmd_list := line # cmd_list c\<rparr>)) \<and>
         (cmd_list_size c + (length line + 1) > client_max_command_list_size env \<longrightarrow>
            client_process_line env c line =
              (COMMAND_RETURN_CLOSE env,
               c\<lparr>cmd_list_size := cmd_list_size c + (length line + 1)\<rparr>))"
  using assms by (simp add: process_line_queue)

text \<open>
  With the cap at 2 MiB and 2097148 bytes queued, the four bytes of \<^verbatim>\<open>abc\<close> reach the
  cap and are queued; the five bytes of \<^verbatim>\<open>abcd\<close> pass it by one and close the client.
\<close>

theorem cmd_list_size_cap_witness:
  "client_process_line example_env
     ((example_client [])\<lparr>cmd_list_OK := 0, cmd_list_size := 2097148\<rparr>) ''abc'' =
     (1, (example_client [])\<lparr>cmd_list_OK := 0, cmd_list_size := 2097152, cmd_list := [''abc'']\<rparr>) \<and>
   client_process_line example_env
     ((example_client [])\<lparr>cmd_list_OK := 0, cmd_list_size := 2097148\<rparr>) ''abcd'' =
     (20, (example_client [])\<lparr>cmd_list_OK := 0, cmd_list_size := 2097153\<rparr>)"
  using cmd_list_size_cap [of "(example_client [])\<lparr>cmd_list_OK := 0, cmd_list_size := 2097148\<rparr>"
                              "''abc''" example_env]
        cmd_list_size_cap [of "(example_client [])\<lparr>cmd_list_OK := 0, cmd_list_size := 2097148\<rparr>"
                              "''abcd''" example_env]
  by (simp add: example_env_fields example_client_fields CLIENT_LIST_MODE_END_def)

subsection \<open>The size of a finished command list\<close>

text \<open>
  C1. Outside command-list mode \<open>cmd_list\<close> is empty, but \<open>cmd_list_size\<close> is not
  brought back to 0: \<^verbatim>\<open>client_process_line\<close> resets \<open>cmd_list\<close> and \<open>cmd_list_OK\<close> after
  \<^verbatim>\<open>command_list_end\<close> and leaves the size, which \<^verbatim>\<open>command_list_begin\<close> does not reset
  either. A new client that sends the list of the one command \<^verbatim>\<open>ping\<close> is back in
  normal mode with an empty list and \<open>cmd_list_size = 5\<close>.
\<close>

theorem cmd_list_size_kept_after_list:
  "fst (client_read example_env (example_client [Written 3]) (Rd list_input)) = 0 \<and>
   \<not> client_is_expired (snd (client_read example_env (example_client [Written 3]) (Rd list_input))) \<and>
   cmd_list_OK (snd (client_read example_env (example_client [Written 3]) (Rd list_input))) = -1 \<and>
   cmd_list (snd (client_read example_env (example_client [Written 3]) (Rd list_input))) = [] \<and>
   cmd_list_size (snd (client_read example_env (example_client [Written 3]) (Rd list_input))) = 5"
proof -
  let ?B = CLIENT_LIST_MODE_BEGIN and ?E = CLIENT_LIST_MODE_END
  let ?ok = "''OK'' @ [CHR 0x0A]"
  let ?c0 = "example_client [Written 3]"
  let ?b0 = "?B @ CHR 0x0A # ''ping'' @ CHR 0x0A # ?E @ [CHR 0x0A]"
  let ?b1 = "[] @ ?B @ CHR 0x00 # ''ping'' @ CHR 0x0A # ?E @ [CHR 0x0A]"
  let ?b2 = "(?B @ [CHR 0x00]) @ ''ping'' @ CHR 0x00 # ?E @ [CHR 0x0A]"
  let ?b3 = "(?B @ CHR 0x00 # ''ping'' @ [CHR 0x00]) @ ?E @ CHR 0x00 # []"
  let ?cA = "?c0\<lparr>buffer := ?b0\<rparr>"
  let ?c1 = "?c0\<lparr>buffer := ?b1, cmd_list_OK := 0\<rparr>"
  let ?c2 = "?c0\<lparr>buffer := ?b2, cmd_list_OK := 0, cmd_list_size := 5, cmd_list := [''ping'']\<rparr>"
  let ?c3 = "?c0\<lparr>buffer := ?b3, cmd_list_OK := -1, cmd_list_size := 5, cmd_list := [],
                   send_buf := [], sock_sent := sock_sent ?c0 @ ?ok, sock_script := []\<rparr>"
  have len: "length list_input = 41" by (simp add: list_input_def marker_facts)
  have ne: "list_input \<noteq> []" by (simp add: list_input_def)
  have rd: "client_read example_env ?c0 (Rd list_input) =
            client_input_received example_env ?c0 list_input"
    using ne by (simp add: client_read_def Let_def bufferLength_def sizeof_buffer_def len
        example_client_fields)
  have p1: "client_process_line example_env (?cA\<lparr>buffer := ?b1\<rparr>) ?B = (1, ?c1)"
    by (simp add: client_process_line_def marker_facts example_client_fields)
  have s1: "client_input_loop example_env 41 0 ?cA = client_input_loop example_env 41 19 ?c1"
    using input_loop_plain_line [of ?cA "[]" ?B "''ping'' @ CHR 0x0A # ?E @ [CHR 0x0A]" 0 41 example_env] p1
    by (simp add: marker_facts example_env_fields client_is_expired_def example_client_fields)
  have p2: "client_process_line example_env (?c1\<lparr>buffer := ?b2\<rparr>) ''ping'' = (1, ?c2)"
    by (simp add: process_line_queue marker_facts example_client_fields example_env_fields)
  have s2: "client_input_loop example_env 41 19 ?c1 = client_input_loop example_env 41 24 ?c2"
    using input_loop_plain_line [of ?c1 "?B @ [CHR 0x00]" "''ping''" "?E @ [CHR 0x0A]" 19 41 example_env] p2
    by (simp add: marker_facts example_env_fields client_is_expired_def example_client_fields)
  let ?d0 = "?c2\<lparr>buffer := ?b3, cmd_list := rev [''ping'']\<rparr>"
  have live: "\<not> client_is_expired ?d0"
    by (simp add: client_is_expired_def example_client_fields)
  have w: "client_write example_env ?d0 ?ok = ?d0\<lparr>send_buf := send_buf ?d0 @ ?ok\<rparr>"
    using live by (rule write_small)
       (simp add: send_buf_used_def sizeof_send_buf_def example_client_fields)
  have f: "client_write_output example_env (?d0\<lparr>send_buf := send_buf ?d0 @ ?ok\<rparr>) =
             (?d0\<lparr>send_buf := send_buf ?d0 @ ?ok\<rparr>)
               \<lparr>sock_script := [], sock_sent := sock_sent (?d0\<lparr>send_buf := send_buf ?d0 @ ?ok\<rparr>) @
                  send_buf (?d0\<lparr>send_buf := send_buf ?d0 @ ?ok\<rparr>), send_buf := []\<rparr>"
    by (rule flush_accepted [where n = 3])
       (simp_all add: client_is_expired_def example_client_fields)
  have p3: "client_process_line example_env (?c2\<lparr>buffer := ?b3\<rparr>) ?E = (0, ?c3)"
    using live w f
    by (simp add: client_process_line_def command_success_def client_puts_def marker_facts
        example_client_fields example_env_fields Let_def)
  have s3: "client_input_loop example_env 41 24 ?c2 = client_input_loop example_env 41 41 ?c3"
    using input_loop_plain_line [of ?c2 "?B @ CHR 0x00 # ''ping'' @ [CHR 0x00]" ?E "[]" 24 41 example_env] p3
    by (simp add: marker_facts example_env_fields client_is_expired_def example_client_fields)
  have s4: "client_input_loop example_env 41 41 ?c3 = (None, 41, ?c3)"
    by (rule input_loop_done) simp
  have "client_input_received example_env ?c0 list_input = (0, ?c3\<lparr>bufferPos := 41\<rparr>)"
    using s1 s2 s3 s4
    by (simp add: client_input_received_def Let_def bufferLength_def sizeof_buffer_def
        list_input_def marker_facts example_client_fields)
  then show ?thesis
    unfolding rd by (simp add: client_is_expired_def example_client_fields)
qed

subsection \<open>The accounting of the deferred queue\<close>

text \<open>
  C2, as amended. After \<^verbatim>\<open>client_write\<close>, \<^verbatim>\<open>client_puts\<close>, \<^verbatim>\<open>client_printf\<close>, a flush
  of the send buffer, the deferred drain, \<^verbatim>\<open>client_idle_wait\<close> and
  \<^verbatim>\<open>client_manager_idle_add\<close>, every client of the registry that is not expired has
  \<open>deferred_bytes\<close> equal to the sum, over the chunks in its queue, of header plus
  payload size, provided this held of the registry before; \<^verbatim>\<open>client_new\<close> keeps it as
  well, so it holds from the start. A defer attempt that passes the output cap expires
  the client without queueing the chunk and leaves \<open>deferred_bytes\<close> above the sum by
  the accounted size of the chunk it turned away.
\<close>

theorem deferred_bytes_accounting:
  assumes "list_all (deferred_ok env) cs" and "c \<in> set cs"
  shows "deferred_ok env (client_write env c d) \<and>
         deferred_ok env (client_puts env c d) \<and>
         deferred_ok env (client_printf env c len d) \<and>
         deferred_ok env (client_write_output env c) \<and>
         deferred_ok env (client_write_deferred env c) \<and>
         deferred_ok env (snd (client_idle_wait env c flags)) \<and>
         list_all (deferred_ok env) (client_manager_idle_add env flags cs) \<and>
         list_all (deferred_ok env)
           (clients (client_new env \<lparr>clients = cs, next_client_num = k\<rparr> fd0 uid0 script)) \<and>
         (deferred_inv env c \<and>
          client_max_output_buffer_size env < deferred_bytes c + (deferred_header env + length d) \<longrightarrow>
            client_is_expired (client_defer_output env c d) \<and>
            deferred_send (client_defer_output env c d) = deferred_send c \<and>
            deferred_bytes (client_defer_output env c d) =
              deferred_account env (deferred_send c) + (deferred_header env + length d))"
proof -
  from assms have ok: "deferred_ok env c" by (simp add: list_all_iff)
  have "deferred_ok env (client_write env c d)" using ok by (rule write_ok)
  moreover have "deferred_ok env (client_puts env c d)"
    using ok by (simp add: client_puts_def write_ok)
  moreover have "deferred_ok env (client_printf env c len d)" using ok by (rule printf_ok)
  moreover have "deferred_ok env (client_write_output env c)" using ok by (rule write_output_ok)
  moreover have "deferred_ok env (client_write_deferred env c)"
    using ok by (rule write_deferred_ok)
  moreover have "deferred_ok env (snd (client_idle_wait env c flags))"
    using ok by (rule idle_wait_ok)
  moreover have "list_all (deferred_ok env) (client_manager_idle_add env flags cs)"
    using assms(1) by (simp add: client_manager_idle_add_def list_all_iff idle_add_ok)
  moreover have "list_all (deferred_ok env)
           (clients (client_new env \<lparr>clients = cs, next_client_num = k\<rparr> fd0 uid0 script))"
    using assms(1) by (intro client_new_ok) simp
  moreover have "deferred_inv env c \<and>
          client_max_output_buffer_size env < deferred_bytes c + (deferred_header env + length d) \<longrightarrow>
            client_is_expired (client_defer_output env c d) \<and>
            deferred_send (client_defer_output env c d) = deferred_send c \<and>
            deferred_bytes (client_defer_output env c d) =
              deferred_account env (deferred_send c) + (deferred_header env + length d)"
    using defer_output_over by blast
  ultimately show ?thesis by blast
qed

theorem deferred_bytes_accounting_witness:
  "deferred_ok small_env (client_write small_env (queued_client [Written 2]) ''abc'') \<and>
   deferred_ok small_env (client_puts small_env (queued_client [Written 2]) ''abc'') \<and>
   deferred_ok small_env (client_printf small_env (queued_client [Written 2]) 3 ''abc'') \<and>
   deferred_ok small_env (client_write_output small_env (queued_client [Written 2])) \<and>
   deferred_ok small_env (client_write_deferred small_env (queued_client [Written 2])) \<and>
   deferred_ok small_env (snd (client_idle_wait small_env (queued_client [Written 2]) 8)) \<and>
   list_all (deferred_ok small_env)
     (client_manager_idle_add small_env 8 [queued_client [Written 2]]) \<and>
   list_all (deferred_ok small_env)
     (clients (client_new small_env
        \<lparr>clients = [queued_client [Written 2]], next_client_num = 1\<rparr> 6 (-1) [])) \<and>
   \<not> client_is_expired (client_write_output small_env (queued_client [Written 2])) \<and>
   deferred_send (client_write_output small_env (queued_client [Written 2])) = [''w'', ''hi''] \<and>
   deferred_bytes (client_write_output small_env (queued_client [Written 2])) = 19 \<and>
   \<not> client_is_expired (client_write_deferred small_env (queued_client [Written 2])) \<and>
   deferred_send (client_write_deferred small_env (queued_client [Written 2])) = [''w''] \<and>
   deferred_bytes (client_write_deferred small_env (queued_client [Written 2])) = 9 \<and>
   client_is_expired (client_defer_output small_env (queued_client [Written 2]) (payload 2000)) \<and>
   deferred_send (client_defer_output small_env (queued_client [Written 2]) (payload 2000)) =
     [''low''] \<and>
   deferred_bytes (client_defer_output small_env (queued_client [Written 2]) (payload 2000)) =
     2019"
proof -
  let ?q = "queued_client [Written 2]"
  have h1: "list_all (deferred_ok small_env) [?q]"
    by (simp add: deferred_ok_def deferred_inv_def deferred_account_def queued_client_fields
        small_env_fields)
  have h2: "?q \<in> set [?q]" by simp
  have p: "deferred_inv small_env ?q \<and>
      client_max_output_buffer_size small_env
        < deferred_bytes ?q + (deferred_header small_env + length (payload 2000))"
    by (simp add: deferred_inv_def deferred_account_def queued_client_fields small_env_fields
        payload_simps)
  have e: "\<not> client_is_expired (client_write_output small_env ?q)"
      "deferred_send (client_write_output small_env ?q) = [''w'', ''hi'']"
      "deferred_bytes (client_write_output small_env ?q) = 19"
      "\<not> client_is_expired (client_write_deferred small_env ?q)"
      "deferred_send (client_write_deferred small_env ?q) = [''w'']"
      "deferred_bytes (client_write_deferred small_env ?q) = 9"
    unfolding queued_flush queued_drain
    by (simp_all add: client_is_expired_def queued_client_fields)
  let ?over = "client_defer_output small_env ?q (payload 2000)"
  note t = deferred_bytes_accounting [OF h1 h2, where len = 3 and flags = 8 and k = 1
      and ?fd0.0 = 6 and ?uid0.0 = "-1" and script = "[]"]
  from t [of "''abc''"] t [of "payload 2000"] p
  have "deferred_ok small_env (client_write small_env ?q ''abc'') \<and>
      deferred_ok small_env (client_puts small_env ?q ''abc'') \<and>
      deferred_ok small_env (client_printf small_env ?q 3 ''abc'') \<and>
      deferred_ok small_env (client_write_output small_env ?q) \<and>
      deferred_ok small_env (client_write_deferred small_env ?q) \<and>
      deferred_ok small_env (snd (client_idle_wait small_env ?q 8)) \<and>
      list_all (deferred_ok small_env) (client_manager_idle_add small_env 8 [?q]) \<and>
      list_all (deferred_ok small_env)
        (clients (client_new small_env \<lparr>clients = [?q], next_client_num = 1\<rparr> 6 (-1) [])) \<and>
      client_is_expired ?over \<and> deferred_send ?over = deferred_send ?q \<and>
      deferred_bytes ?over =
        deferred_account small_env (deferred_send ?q) +
          (deferred_header small_env + length (payload 2000))"
    by blast
  then show ?thesis
    using e
    by (simp add: queued_client_fields small_env_fields payload_simps deferred_account_def)
qed

text \<open>
  The claim for expired clients fails: a new client under a cap of one KiB, whose
  socket would block, is given 4096 bytes. The flush defers them, the cap is passed, the
  client is expired with an empty queue and \<open>deferred_bytes = 4104\<close>.
\<close>

theorem deferred_bytes_counterexample:
  "deferred_inv small_env (example_client []) \<and>
   \<not> client_is_expired (example_client []) \<and>
   client_is_expired (client_write small_env (example_client []) (payload 4096)) \<and>
   deferred_send (client_write small_env (example_client []) (payload 4096)) = [] \<and>
   deferred_bytes (client_write small_env (example_client []) (payload 4096)) = 4104 \<and>
   \<not> deferred_inv small_env (client_write small_env (example_client []) (payload 4096))"
proof -
  have "client_write small_env (example_client []) (payload 4096) =
        client_write_loop small_env
          (client_write_output small_env ((example_client [])\<lparr>send_buf := payload 4096\<rparr>))
          (payload 0)"
    by (simp add: client_write_def example_client_live client_write_loop_step Let_def
        sizeof_send_buf_def send_buf_used_def payload_simps example_client_fields)
  then have "client_write small_env (example_client []) (payload 4096) =
          (example_client [])\<lparr>fd := -1, deferred_bytes := 4104\<rparr>"
    by (simp add: client_write_loop_stop small_flush payload_simps)
  then show ?thesis
    using example_client_live [of "[]"]
    by (simp add: deferred_inv_def deferred_account_def client_is_expired_def
        example_client_fields)
qed

subsection \<open>A direct write that succeeds in part\<close>

text \<open>
  C3, as amended. A client that is not expired and whose deferred queue is empty writes
  a payload directly; the caller, \<^verbatim>\<open>client_write_output\<close>, passes the send buffer, so
  that the length equals \<open>send_buf_used\<close>, the value the source compares the count
  with. Let \<^verbatim>\<open>write\<close> accept \<open>ret\<close> bytes, fewer than the length. When the accounted
  size of the rest stays within the output cap, the socket has taken the first \<open>ret\<close>
  bytes and the queue holds one chunk, the bytes from \<open>ret\<close> on: none lost, none twice.
  When it passes the cap, the client is expired and nothing is queued.
\<close>

theorem partial_direct_write:
  assumes "\<not> client_is_expired c" and "deferred_send c = []"
      and "sock_script c = Written ret # rest" and "ret < length data"
      and "send_buf_used c = length data"
  shows "(deferred_bytes c + (deferred_header env + (length data - ret))
            \<le> client_max_output_buffer_size env \<longrightarrow>
          client_write_direct env c data =
            c\<lparr>deferred_send := [drop ret data],
              deferred_bytes := deferred_bytes c + (deferred_header env + (length data - ret)),
              sock_sent := sock_sent c @ take ret data,
              sock_script := rest\<rparr> \<and>
          (data = send_buf c \<longrightarrow>
             client_write_output env c =
               c\<lparr>deferred_send := [drop ret data],
                 deferred_bytes := deferred_bytes c + (deferred_header env + (length data - ret)),
                 send_buf := [],
                 sock_sent := sock_sent c @ take ret data,
                 sock_script := rest\<rparr>)) \<and>
         (client_max_output_buffer_size env
            < deferred_bytes c + (deferred_header env + (length data - ret)) \<longrightarrow>
          client_is_expired (client_write_direct env c data) \<and>
          deferred_send (client_write_direct env c data) = [])"
proof -
  let ?c1 = "c\<lparr>sock_script := rest, sock_sent := sock_sent c @ take ret data\<rparr>"
  let ?n = "deferred_bytes c + (deferred_header env + (length data - ret))"
  have sw: "sys_write c data = (Written ret, ?c1)"
    using assms by (simp add: sys_write_def client_is_expired_def min_def)
  have d1: "client_write_direct env c data = client_defer_output env ?c1 (drop ret data)"
    using assms by (simp add: client_write_direct_def sw send_buf_used_def)
  have within: "client_write_direct env c data =
           c\<lparr>deferred_send := [drop ret data], deferred_bytes := ?n,
             sock_sent := sock_sent c @ take ret data, sock_script := rest\<rparr>"
    if fit: "?n \<le> client_max_output_buffer_size env"
  proof -
    have "client_defer_output env ?c1 (drop ret data) =
              ?c1\<lparr>deferred_bytes := ?n, deferred_send := [drop ret data]\<rparr>"
      using assms fit by (simp add: client_defer_output_def Let_def)
    also have "\<dots> = c\<lparr>deferred_send := [drop ret data], deferred_bytes := ?n,
                sock_sent := sock_sent c @ take ret data, sock_script := rest\<rparr>"
      by (cases c) simp
    finally show ?thesis using d1 by simp
  qed
  have flush: "client_write_output env c =
              c\<lparr>deferred_send := [drop ret data], deferred_bytes := ?n, send_buf := [],
                sock_sent := sock_sent c @ take ret data, sock_script := rest\<rparr>"
    if fit: "?n \<le> client_max_output_buffer_size env" and "data = send_buf c"
  proof -
    have "send_buf c \<noteq> []" using assms(4) that(2) by auto
    then have "client_write_output env c = (client_write_direct env c data)\<lparr>send_buf := []\<rparr>"
      using assms(1,2) that(2) by (simp add: client_write_output_def send_buf_used_def)
    also have "\<dots> = c\<lparr>deferred_send := [drop ret data], deferred_bytes := ?n, send_buf := [],
                sock_sent := sock_sent c @ take ret data, sock_script := rest\<rparr>"
      unfolding within [OF fit] by (cases c) simp
    finally show ?thesis .
  qed
  have over: "client_is_expired (client_write_direct env c data) \<and>
              deferred_send (client_write_direct env c data) = []"
    if "client_max_output_buffer_size env < ?n"
  proof -
    have "client_defer_output env ?c1 (drop ret data) =
            client_set_expired (?c1\<lparr>deferred_bytes := ?n\<rparr>)"
      using assms that by (simp add: client_defer_output_def Let_def)
    then show ?thesis
      using assms(2) expired_set_expired [of "?c1\<lparr>deferred_bytes := ?n\<rparr>"]
      by (simp add: d1 set_expired_fields)
  qed
  show ?thesis using within flush over by blast
qed

theorem partial_direct_write_witness:
  "client_write_direct example_env ((example_client [Written 3])\<lparr>send_buf := ''hello''\<rparr>) ''hello'' =
     ((example_client [Written 3])\<lparr>send_buf := ''hello''\<rparr>)
       \<lparr>deferred_send := [''lo''], deferred_bytes := 10,
        sock_sent := ''OK MPD 0.14.0'' @ [CHR 0x0A] @ ''hel'', sock_script := []\<rparr> \<and>
   client_write_output example_env ((example_client [Written 3])\<lparr>send_buf := ''hello''\<rparr>) =
     ((example_client [Written 3])\<lparr>send_buf := ''hello''\<rparr>)
       \<lparr>deferred_send := [''lo''], deferred_bytes := 10, send_buf := [],
        sock_sent := ''OK MPD 0.14.0'' @ [CHR 0x0A] @ ''hel'', sock_script := []\<rparr> \<and>
   client_is_expired
     (client_write_direct small_env ((example_client [Written 3])\<lparr>send_buf := payload 2000\<rparr>)
        (payload 2000)) \<and>
   deferred_send
     (client_write_direct small_env ((example_client [Written 3])\<lparr>send_buf := payload 2000\<rparr>)
        (payload 2000)) = []"
proof -
  let ?c = "(example_client [Written 3])\<lparr>send_buf := ''hello''\<rparr>"
  let ?d = "(example_client [Written 3])\<lparr>send_buf := payload 2000\<rparr>"
  have h: "\<not> client_is_expired ?c" "deferred_send ?c = []" "sock_script ?c = Written 3 # []"
    "3 < length ''hello''" "send_buf_used ?c = length ''hello''"
    by (simp_all add: client_is_expired_def send_buf_used_def example_client_fields)
  have k: "\<not> client_is_expired ?d" "deferred_send ?d = []" "sock_script ?d = Written 3 # []"
    "3 < length (payload 2000)" "send_buf_used ?d = length (payload 2000)"
    by (simp_all add: client_is_expired_def send_buf_used_def example_client_fields payload_simps)
  have fit: "deferred_bytes ?c + (deferred_header example_env + (length ''hello'' - 3))
       \<le> client_max_output_buffer_size example_env"
    by (simp add: example_client_fields example_env_fields)
  have over: "client_max_output_buffer_size small_env
       < deferred_bytes ?d + (deferred_header small_env + (length (payload 2000) - 3))"
    by (simp add: example_client_fields small_env_fields payload_simps)
  show ?thesis
    using partial_direct_write [OF h, of example_env] fit
          partial_direct_write [OF k, of small_env] over
    by (simp add: example_client_fields example_env_fields)
qed

text \<open>
  The claim without the cap fails: with a cap of one KiB, a send buffer of 4096 bytes
  of which the socket takes 50 leaves 4046 bytes unwritten; they are not queued, and the
  client is expired.
\<close>

theorem partial_direct_write_counterexample:
  "\<not> client_is_expired ((example_client [Written 50])\<lparr>send_buf := payload 4096\<rparr>) \<and>
   deferred_send ((example_client [Written 50])\<lparr>send_buf := payload 4096\<rparr>) = [] \<and>
   sock_script ((example_client [Written 50])\<lparr>send_buf := payload 4096\<rparr>) = [Written 50] \<and>
   50 < length (payload 4096) \<and>
   client_is_expired
     (client_write_output small_env ((example_client [Written 50])\<lparr>send_buf := payload 4096\<rparr>)) \<and>
   deferred_send
     (client_write_output small_env ((example_client [Written 50])\<lparr>send_buf := payload 4096\<rparr>)) = [] \<and>
   deferred_send
     (client_write_output small_env ((example_client [Written 50])\<lparr>send_buf := payload 4096\<rparr>))
     \<noteq> [drop 50 (payload 4096)]"
proof -
  let ?c = "(example_client [Written 50])\<lparr>send_buf := payload 4096\<rparr>"
  let ?c1 = "?c\<lparr>sock_script := [], sock_sent := sock_sent ?c @ take 50 (payload 4096)\<rparr>"
  have pre: "\<not> client_is_expired ?c" "send_buf_used ?c = 4096" "deferred_send ?c = []"
       "send_buf ?c = payload 4096" "sock_script ?c = [Written 50]"
    by (simp_all add: client_is_expired_def send_buf_used_def payload_simps example_client_fields)
  have sw: "sys_write ?c (payload 4096) = (Written 50, ?c1)"
    by (simp add: sys_write_def example_client_fields payload_simps)
  have "client_defer_output small_env ?c1 (payload 4046) =
          client_set_expired (?c1\<lparr>deferred_bytes := 4054\<rparr>)"
    by (simp add: client_defer_output_def Let_def small_env_fields payload_simps
        example_client_fields)
  then have d: "client_write_direct small_env ?c (payload 4096) =
      client_set_expired (?c1\<lparr>deferred_bytes := 4054\<rparr>)"
    by (simp add: client_write_direct_def sw send_buf_used_def payload_simps)
  have "client_write_output small_env ?c =
      (client_set_expired (?c1\<lparr>deferred_bytes := 4054\<rparr>))\<lparr>send_buf := []\<rparr>"
    using pre by (simp add: client_write_output_def d)
  then show ?thesis
    using pre expired_set_expired [of "?c1\<lparr>deferred_bytes := 4054\<rparr>"]
    by (simp add: send_buf_expired set_expired_fields payload_simps example_client_fields)
qed

subsection \<open>Entering idle mode\<close>

text \<open>
  C4. For a client that is not waiting yet, \<^verbatim>\<open>client_idle_wait\<close> returns true
  exactly when \<open>idle_flags AND flags\<close> is not zero at entry. It then writes the idle
  response for the overlap through \<^verbatim>\<open>client_write\<close> at once (so the response follows
  the client's earlier output unless the client expires on the way), and leaves
  \<open>idle_flags = 0\<close> and \<open>idle_waiting\<close> false. Otherwise it returns false, and the
  client differs from before only in \<open>idle_waiting\<close>, now true, and
  \<open>idle_subscriptions\<close>, now \<open>flags\<close>: no output.
\<close>

theorem client_idle_wait_delivers:
  assumes "\<not> idle_waiting c"
  shows "fst (client_idle_wait env c flags) = (idle_flags c AND flags \<noteq> 0) \<and>
    (idle_flags c AND flags \<noteq> 0 \<longrightarrow>
       snd (client_idle_wait env c flags) =
         (client_write env (c\<lparr>idle_waiting := False, idle_subscriptions := flags, idle_flags := 0\<rparr>)
            (idle_response (idle_names env) (idle_flags c AND flags)))\<lparr>lastTime := now env\<rparr> \<and>
       idle_flags (snd (client_idle_wait env c flags)) = 0 \<and>
       \<not> idle_waiting (snd (client_idle_wait env c flags)) \<and>
       (\<not> client_is_expired (snd (client_idle_wait env c flags)) \<longrightarrow>
          out_stream (snd (client_idle_wait env c flags)) =
            out_stream c @ idle_response (idle_names env) (idle_flags c AND flags))) \<and>
    (idle_flags c AND flags = 0 \<longrightarrow>
       snd (client_idle_wait env c flags) = c\<lparr>idle_waiting := True, idle_subscriptions := flags\<rparr> \<and>
       out_stream (snd (client_idle_wait env c flags)) = out_stream c)"
proof -
  let ?c0 = "c\<lparr>idle_waiting := False, idle_subscriptions := flags, idle_flags := 0\<rparr>"
  let ?txt = "idle_response (idle_names env) (idle_flags c AND flags)"
  note fr = frame_fields [OF frame_write [of env ?c0 ?txt]]
  have "out_stream (client_write env ?c0 ?txt) = out_stream c @ ?txt"
    if "\<not> client_is_expired (client_write env ?c0 ?txt)"
    using write_stream [OF that] by (simp add: out_stream_def wire_def)
  then show ?thesis
    by (simp add: idle_wait_eq fr lastTime_expired lastTime_stream)
       (simp add: out_stream_def wire_def)
qed

theorem client_idle_wait_delivers_witness:
  "fst (client_idle_wait example_env pending_client 8) = True \<and>
   snd (client_idle_wait example_env pending_client 8) =
     pending_client
       \<lparr>idle_waiting := False, idle_subscriptions := 8, idle_flags := 0,
        send_buf := player_changed, lastTime := 1000\<rparr> \<and>
   out_stream (snd (client_idle_wait example_env pending_client 8)) =
     out_stream pending_client @ player_changed \<and>
   fst (client_idle_wait example_env pending_client 1) = False \<and>
   snd (client_idle_wait example_env pending_client 1) =
     pending_client\<lparr>idle_waiting := True, idle_subscriptions := 1\<rparr>"
proof -
  let ?c0 = "pending_client\<lparr>idle_waiting := False, idle_subscriptions := 8, idle_flags := 0\<rparr>"
  have h: "\<not> idle_waiting pending_client" by (simp add: pending_client_fields)
  have live: "\<not> client_is_expired ?c0"
    by (simp add: client_is_expired_def pending_client_fields)
  have w: "client_write example_env ?c0 player_changed = ?c0\<lparr>send_buf := player_changed\<rparr>"
    using write_small [OF live, of player_changed example_env]
    by (simp add: send_buf_used_def sizeof_send_buf_def pending_client_fields player_changed_def)
  have r: "idle_response (idle_names example_env) (idle_flags pending_client AND 8) = player_changed"
    using player_response by (simp add: pending_client_fields)
  have z: "idle_flags pending_client AND 8 \<noteq> 0" "idle_flags pending_client AND 1 = 0"
    by (simp_all add: pending_client_fields)
  from client_idle_wait_delivers [OF h, of example_env 8] z(1)
  have d: "fst (client_idle_wait example_env pending_client 8) = True"
    "snd (client_idle_wait example_env pending_client 8) =
       (?c0\<lparr>send_buf := player_changed\<rparr>)\<lparr>lastTime := now example_env\<rparr>"
    unfolding r w by simp_all
  from client_idle_wait_delivers [OF h, of example_env 1] z(2)
  have p: "fst (client_idle_wait example_env pending_client 1) = False"
    "snd (client_idle_wait example_env pending_client 1) =
       pending_client\<lparr>idle_waiting := True, idle_subscriptions := 1\<rparr>"
    by simp_all
  show ?thesis
    unfolding d p
    by (simp add: example_env_fields out_stream_def wire_def pending_client_fields)
qed

subsection \<open>Broadcasting events\<close>

text \<open>
  C5. For flags that are not zero, \<^verbatim>\<open>client_manager_idle_add\<close> leaves expired clients
  alone and ORs the flags into \<open>idle_flags\<close> of every other client. A client that is
  waiting and whose flags then overlap its subscriptions is notified at once: one
  \<^verbatim>\<open>changed:\<close> line for each subscribed bit that is set, in the order of the name
  table, then \<^verbatim>\<open>OK\<close>, and the send buffer is flushed. After that the whole of its
  \<open>idle_flags\<close> is zero, the bits it did not subscribe to included, and \<open>idle_waiting\<close>
  is false.
\<close>

theorem client_manager_idle_add_notifies:
  assumes "flags \<noteq> 0"
  shows "client_manager_idle_add env flags cs =
     map (\<lambda>c. if client_is_expired c then c
               else if idle_waiting c \<and> (idle_flags c OR flags) AND idle_subscriptions c \<noteq> 0
               then client_write_output env
                      ((client_write env (c\<lparr>idle_flags := 0, idle_waiting := False\<rparr>)
                          (idle_response (idle_names env)
                             ((idle_flags c OR flags) AND idle_subscriptions c)))
                       \<lparr>lastTime := now env\<rparr>)
               else c\<lparr>idle_flags := idle_flags c OR flags\<rparr>) cs \<and>
    (\<forall>c \<in> set cs.
       \<not> client_is_expired c \<and> idle_waiting c \<and>
       (idle_flags c OR flags) AND idle_subscriptions c \<noteq> 0 \<longrightarrow>
         idle_flags (client_idle_add env flags c) = 0 \<and>
         \<not> idle_waiting (client_idle_add env flags c) \<and>
         (\<not> client_is_expired (client_idle_add env flags c) \<longrightarrow>
            send_buf (client_idle_add env flags c) = [] \<and>
            out_stream (client_idle_add env flags c) =
              out_stream c @
              idle_response (idle_names env) ((idle_flags c OR flags) AND idle_subscriptions c)))"
  (is "?A \<and> ?B")
proof
  have "client_idle_add env flags = (\<lambda>c. if client_is_expired c then c
               else if idle_waiting c \<and> (idle_flags c OR flags) AND idle_subscriptions c \<noteq> 0
               then client_write_output env
                      ((client_write env (c\<lparr>idle_flags := 0, idle_waiting := False\<rparr>)
                          (idle_response (idle_names env)
                             ((idle_flags c OR flags) AND idle_subscriptions c)))
                       \<lparr>lastTime := now env\<rparr>)
               else c\<lparr>idle_flags := idle_flags c OR flags\<rparr>)"
    by (rule ext) (rule idle_add_eq)
  then show ?A by (simp only: client_manager_idle_add_def)
  show ?B using idle_add_notified by blast
qed

theorem client_manager_idle_add_notifies_witness:
  "client_manager_idle_add example_env 8 [waiting_client [Written 100], example_client []] =
     [(waiting_client [Written 100])
        \<lparr>idle_flags := 0, idle_waiting := False, send_buf := player_changed, lastTime := 1000,
         sock_script := [],
         sock_sent := ''OK MPD 0.14.0'' @ [CHR 0x0A] @ player_changed,
         send_buf := []\<rparr>,
      (example_client [])\<lparr>idle_flags := 8\<rparr>] \<and>
   idle_flags (client_idle_add example_env 8 (waiting_client [Written 100])) = 0 \<and>
   \<not> idle_waiting (client_idle_add example_env 8 (waiting_client [Written 100])) \<and>
   send_buf (client_idle_add example_env 8 (waiting_client [Written 100])) = [] \<and>
   out_stream (client_idle_add example_env 8 (waiting_client [Written 100])) =
     out_stream (waiting_client [Written 100]) @ player_changed"
proof -
  let ?w = "waiting_client [Written 100]"
  let ?c0 = "?w\<lparr>idle_flags := 0, idle_waiting := False\<rparr>"
  let ?c1 = "(?c0\<lparr>send_buf := player_changed\<rparr>)\<lparr>lastTime := now example_env\<rparr>"
  have nz: "(8::32 word) \<noteq> 0" by simp
  note t = client_manager_idle_add_notifies [OF nz, of example_env "[?w, example_client []]"]
  have m: "(idle_flags ?w OR 8) AND idle_subscriptions ?w = 8"
    by (simp add: waiting_client_fields)
  have live: "\<not> client_is_expired ?w" "\<not> client_is_expired (example_client [])"
             "\<not> client_is_expired ?c0" "\<not> client_is_expired ?c1"
    by (simp_all add: client_is_expired_def waiting_client_fields example_client_fields)
  have w: "client_write example_env ?c0 player_changed = ?c0\<lparr>send_buf := player_changed\<rparr>"
    using write_small [OF live(3), of player_changed example_env]
    by (simp add: send_buf_used_def sizeof_send_buf_def waiting_client_fields player_changed_def)
  have f: "client_write_output example_env ?c1 =
             ?c1\<lparr>sock_script := [], sock_sent := sock_sent ?c1 @ send_buf ?c1, send_buf := []\<rparr>"
    by (rule flush_accepted [where n = 100])
       (simp_all add: client_is_expired_def waiting_client_fields player_changed_def)
  have n: "client_idle_add example_env 8 ?w =
             ?c1\<lparr>sock_script := [], sock_sent := sock_sent ?c1 @ send_buf ?c1, send_buf := []\<rparr>"
    using live(1) by (simp add: idle_add_eq waiting_client_fields player_response w f)
  have A: "client_manager_idle_add example_env 8 [?w, example_client []] =
      [?c1\<lparr>sock_script := [], sock_sent := sock_sent ?c1 @ send_buf ?c1, send_buf := []\<rparr>,
       (example_client [])\<lparr>idle_flags := 8\<rparr>]"
    using t [THEN conjunct1] live(1,2)
    by (simp add: waiting_client_fields example_client_fields player_response w f)
  have B: "idle_flags (client_idle_add example_env 8 ?w) = 0 \<and>
         \<not> idle_waiting (client_idle_add example_env 8 ?w) \<and>
         (\<not> client_is_expired (client_idle_add example_env 8 ?w) \<longrightarrow>
            send_buf (client_idle_add example_env 8 ?w) = [] \<and>
            out_stream (client_idle_add example_env 8 ?w) =
              out_stream ?w @ idle_response (idle_names example_env) ((idle_flags ?w OR 8) AND idle_subscriptions ?w))"
    using t [THEN conjunct2] live(1) m by (simp add: waiting_client_fields)
  have "\<not> client_is_expired (client_idle_add example_env 8 ?w)"
    unfolding n by (simp add: client_is_expired_def waiting_client_fields)
  with B have C: "idle_flags (client_idle_add example_env 8 ?w) = 0"
     "\<not> idle_waiting (client_idle_add example_env 8 ?w)"
     "send_buf (client_idle_add example_env 8 ?w) = []"
     "out_stream (client_idle_add example_env 8 ?w) = out_stream ?w @ player_changed"
    unfolding m player_response by simp_all
  show ?thesis
    unfolding A using C
    by (simp add: waiting_client_fields example_env_fields)
qed

subsection \<open>The line noidle\<close>

text \<open>
  C6. The line \<^verbatim>\<open>noidle\<close> to a waiting client clears \<open>idle_waiting\<close>, writes exactly
  \<^verbatim>\<open>OK\<close> and a newline and flushes, so that nothing else joins the client's output,
  returns 0 and leaves the command-list mode as it was. To a client that is not waiting
  it returns 0 and changes nothing. The return value is not \<open>COMMAND_RETURN_CLOSE\<close>.
\<close>

theorem noidle_line:
  assumes "\<not> client_is_expired c"
  shows "(idle_waiting c \<longrightarrow>
            fst (client_process_line env c ''noidle'') = 0 \<and>
            snd (client_process_line env c ''noidle'') =
              client_write_output env
                (client_write env (c\<lparr>idle_waiting := False\<rparr>) (''OK'' @ [CHR 0x0A])) \<and>
            \<not> idle_waiting (snd (client_process_line env c ''noidle'')) \<and>
            cmd_list_OK (snd (client_process_line env c ''noidle'')) = cmd_list_OK c \<and>
            (\<not> client_is_expired (snd (client_process_line env c ''noidle'')) \<longrightarrow>
               out_stream (snd (client_process_line env c ''noidle'')) =
                 out_stream c @ ''OK'' @ [CHR 0x0A] \<and>
               send_buf (snd (client_process_line env c ''noidle'')) = [])) \<and>
         (\<not> idle_waiting c \<longrightarrow> client_process_line env c ''noidle'' = (0, c)) \<and>
         (COMMAND_RETURN_CLOSE env \<noteq> 0 \<longrightarrow>
            fst (client_process_line env c ''noidle'') \<noteq> COMMAND_RETURN_CLOSE env)"
proof -
  let ?c0 = "c\<lparr>idle_waiting := False\<rparr>"
  let ?ok = "''OK'' @ [CHR 0x0A]"
  let ?c1 = "client_write env ?c0 ?ok"
  let ?c2 = "client_write_output env ?c1"
  have f: "frame ?c2 = frame ?c0"
    using frame_write_output [of env ?c1] frame_write [of env ?c0 ?ok] by simp
  note fr = frame_fields [OF f]
  have stream: "out_stream ?c2 = out_stream c @ ?ok" and flushed: "send_buf ?c2 = []"
    if live: "\<not> client_is_expired ?c2"
  proof -
    from live have l1: "\<not> client_is_expired ?c1" using write_output_expired by blast
    have "out_stream ?c2 = out_stream ?c1" using live by (rule write_output_stream)
    also have "\<dots> = out_stream ?c0 @ ?ok" using l1 by (rule write_stream)
    also have "out_stream ?c0 = out_stream c" by (simp add: out_stream_def wire_def)
    finally show "out_stream ?c2 = out_stream c @ ?ok" .
    show "send_buf ?c2 = []"
    proof (cases "send_buf_used ?c1 = 0")
      case True
      then show ?thesis by (simp add: client_write_output_def send_buf_used_def)
    next
      case False
      with l1 show ?thesis by (simp add: client_write_output_flushed)
    qed
  qed
  have eq: "client_process_line env c ''noidle'' = (if idle_waiting c then (0, ?c2) else (0, c))"
    by (simp add: client_process_line_def command_success_def client_puts_def)
  show ?thesis
    unfolding eq using fr(6) fr(9) stream flushed by simp
qed

theorem noidle_line_witness:
  "client_process_line example_env (waiting_client [Written 3]) ''noidle'' =
     (0, (waiting_client [Written 3])
           \<lparr>idle_waiting := False, send_buf := ''OK'' @ [CHR 0x0A], sock_script := [],
            sock_sent := ''OK MPD 0.14.0'' @ [CHR 0x0A] @ ''OK'' @ [CHR 0x0A], send_buf := []\<rparr>) \<and>
   out_stream (snd (client_process_line example_env (waiting_client [Written 3]) ''noidle'')) =
     out_stream (waiting_client [Written 3]) @ ''OK'' @ [CHR 0x0A] \<and>
   client_process_line example_env (example_client []) ''noidle'' = (0, example_client []) \<and>
   fst (client_process_line example_env (waiting_client [Written 3]) ''noidle'')
     \<noteq> COMMAND_RETURN_CLOSE example_env"
proof -
  let ?w = "waiting_client [Written 3]"
  let ?ok = "''OK'' @ [CHR 0x0A]"
  let ?c0 = "?w\<lparr>idle_waiting := False\<rparr>"
  let ?c1 = "?c0\<lparr>send_buf := ?ok\<rparr>"
  have live: "\<not> client_is_expired ?w" "\<not> client_is_expired (example_client [])"
             "\<not> client_is_expired ?c0"
    by (simp_all add: client_is_expired_def waiting_client_fields example_client_fields)
  have w: "client_write example_env ?c0 ?ok = ?c1"
    using write_small [OF live(3), of ?ok example_env]
    by (simp add: send_buf_used_def sizeof_send_buf_def waiting_client_fields)
  have f: "client_write_output example_env ?c1 =
             ?c1\<lparr>sock_script := [], sock_sent := sock_sent ?c1 @ send_buf ?c1, send_buf := []\<rparr>"
    by (rule flush_accepted [where n = 3])
       (simp_all add: client_is_expired_def waiting_client_fields)
  note t1 = noidle_line [OF live(1), of example_env]
  note t2 = noidle_line [OF live(2), of example_env]
  have i: "idle_waiting ?w" "\<not> idle_waiting (example_client [])"
    by (simp_all add: waiting_client_fields example_client_fields)
  from t1 i(1) have a: "fst (client_process_line example_env ?w ''noidle'') = 0"
    "snd (client_process_line example_env ?w ''noidle'') =
       ?c1\<lparr>sock_script := [], sock_sent := sock_sent ?c1 @ send_buf ?c1, send_buf := []\<rparr>"
    unfolding w f by simp_all
  then have "\<not> client_is_expired (snd (client_process_line example_env ?w ''noidle''))"
    by (simp add: client_is_expired_def waiting_client_fields)
  with t1 i(1) have s: "out_stream (snd (client_process_line example_env ?w ''noidle'')) =
      out_stream ?w @ ?ok"
    by blast
  from t2 i(2) have b: "client_process_line example_env (example_client []) ''noidle'' =
      (0, example_client [])"
    by simp
  have c: "fst (client_process_line example_env ?w ''noidle'') \<noteq> COMMAND_RETURN_CLOSE example_env"
    using t1 by (simp add: example_env_fields)
  have "client_process_line example_env ?w ''noidle'' =
      (0, ?c1\<lparr>sock_script := [], sock_sent := sock_sent ?c1 @ send_buf ?c1, send_buf := []\<rparr>)"
    using a by (simp add: prod_eq_iff)
  then show ?thesis
    using s b c by (simp add: waiting_client_fields)
qed

subsection \<open>The longest line\<close>

text \<open>
  C8. Into an empty input buffer, a line of 4095 bytes, none of them NUL, and its
  newline fill the 4096 bytes. \<^verbatim>\<open>client_process_line\<close> is handed the line itself, all
  of its bytes, less the carriage return if it ends with one, and what \<^verbatim>\<open>client_read\<close>
  returns is what follows from the line processor's answer: the buffer is emptied when
  the client goes on. 4096 bytes with no newline leave the buffer full with
  \<open>bufferPos = 0\<close>, and \<^verbatim>\<open>client_read\<close> returns \<open>COMMAND_RETURN_CLOSE\<close>.
\<close>

theorem line_length_boundary:
  assumes "buffer c = []" and "bufferPos c = 0"
  shows "(length line = 4095 \<and> CHR 0x0A \<notin> set line \<and> CHR 0x00 \<notin> set line \<longrightarrow>
            (\<forall>ret c2.
               client_process_line env
                 (c\<lparr>buffer := (line @ [CHR 0x0A])
                    [length (if last line = CHR 0x0D then butlast line else line) := CHR 0x00]\<rparr>)
                 (if last line = CHR 0x0D then butlast line else line) = (ret, c2) \<longrightarrow>
               client_read env c (Rd (line @ [CHR 0x0A])) =
                 (if ret = COMMAND_RETURN_KILL env \<or> ret = COMMAND_RETURN_CLOSE env then (ret, c2)
                  else if client_is_expired c2 then (COMMAND_RETURN_CLOSE env, c2)
                  else if bufferLength c2 = sizeof_buffer then (0, c2\<lparr>buffer := [], bufferPos := 0\<rparr>)
                  else (0, c2\<lparr>bufferPos := 4096\<rparr>)))) \<and>
         (length bytes = 4096 \<and> CHR 0x0A \<notin> set bytes \<longrightarrow>
            client_read env c (Rd bytes) = (COMMAND_RETURN_CLOSE env, c\<lparr>buffer := bytes\<rparr>) \<and>
            bufferLength (c\<lparr>buffer := bytes\<rparr>) = sizeof_buffer \<and>
            bufferPos (c\<lparr>buffer := bytes\<rparr>) = 0)"
proof (intro conjI impI allI)
  fix ret c2
  let ?data = "line @ [CHR 0x0A]"
  let ?l = "if last line = CHR 0x0D then butlast line else line"
  let ?c0 = "c\<lparr>buffer := ?data\<rparr>"
  let ?c1 = "c\<lparr>buffer := ?data[length ?l := CHR 0x00]\<rparr>"
  assume len: "length line = 4095 \<and> CHR 0x0A \<notin> set line \<and> CHR 0x00 \<notin> set line"
    and pl: "client_process_line env ?c1 ?l = (ret, c2)"
  have ne: "line \<noteq> []" using len by auto
  then have sl: "strip_cr line = ?l" by (simp add: strip_cr_def)
  have "CHR 0x00 \<notin> set ?l" using len by (auto dest: in_set_butlastD)
  then have cs: "c_string ?l = ?l"
    unfolding c_string_def by (intro takeWhile_eq_all_conv [THEN iffD2]) metis
  have rd: "client_read env c (Rd ?data) = client_input_received env c ?data"
    using assms len by (simp add: client_read_def bufferLength_def sizeof_buffer_def)
  have found: "memchr (take (4096 - 0) (drop 0 (buffer ?c0))) (CHR 0x0A) = Some 4095"
    using len memchr_first [of "CHR 0x0A" line "[]"] by simp
  have nl: "(if (0::nat) + 4095 > 0 \<and> buffer ?c0 ! (0 + 4095 - 1) = CHR 0x0D
             then 0 + 4095 - 1 else 0 + 4095) = length ?l"
  proof -
    have "?data ! 4094 = last line"
      using len ne by (simp add: nth_append last_conv_nth)
    then show ?thesis using len ne by simp
  qed
  have str: "c_string (drop 0 (buffer ?c1)) = ?l"
    using terminated_line [of line] unfolding sl cs by simp
  have tail: "client_input_loop env 4096 4096 c2 = (None, 4096, c2)"
    by (rule input_loop_done) simp
  have loop: "client_input_loop env 4096 0 ?c0 =
      (if ret = COMMAND_RETURN_KILL env \<or> ret = COMMAND_RETURN_CLOSE env then (Some ret, 0, c2)
       else if client_is_expired c2 then (Some (COMMAND_RETURN_CLOSE env), 0, c2)
       else (None, 4096, c2))"
    unfolding input_loop_line [OF found] Let_def nl
    using pl tail str by simp
  show "client_read env c (Rd ?data) =
                 (if ret = COMMAND_RETURN_KILL env \<or> ret = COMMAND_RETURN_CLOSE env then (ret, c2)
                  else if client_is_expired c2 then (COMMAND_RETURN_CLOSE env, c2)
                  else if bufferLength c2 = sizeof_buffer then (0, c2\<lparr>buffer := [], bufferPos := 0\<rparr>)
                  else (0, c2\<lparr>bufferPos := 4096\<rparr>))"
    unfolding rd client_input_received_def Let_def
    using assms len loop by (simp add: bufferLength_def sizeof_buffer_def)
next
  assume full: "length bytes = 4096 \<and> CHR 0x0A \<notin> set bytes"
  from full have "bytes \<noteq> []" by auto
  then have rd: "client_read env c (Rd bytes) = client_input_received env c bytes"
    using assms full by (simp add: client_read_def bufferLength_def sizeof_buffer_def)
  have loop: "client_input_loop env 4096 0 (c\<lparr>buffer := bytes\<rparr>) = (None, 0, c\<lparr>buffer := bytes\<rparr>)"
    using full by (intro input_loop_done) (simp add: memchr_absent)
  have "c\<lparr>buffer := bytes, bufferPos := 0\<rparr> = c\<lparr>buffer := bytes\<rparr>"
    using assms(2) by (cases c) simp
  then show "client_read env c (Rd bytes) = (COMMAND_RETURN_CLOSE env, c\<lparr>buffer := bytes\<rparr>)"
    unfolding rd client_input_received_def Let_def
    using assms full loop by (simp add: bufferLength_def sizeof_buffer_def)
next
  assume "length bytes = 4096 \<and> CHR 0x0A \<notin> set bytes"
  then show "bufferLength (c\<lparr>buffer := bytes\<rparr>) = sizeof_buffer"
    by (simp add: bufferLength_def sizeof_buffer_def)
next
  show "bufferPos (c\<lparr>buffer := bytes\<rparr>) = 0" using assms by simp
qed

text \<open>
  With a command processor that accepts one line only: the line of 4095 bytes arrives
  whole, a line that ends with a carriage return arrives without it, and a processor
  that expects another line closes the connection.
\<close>

theorem line_length_boundary_witness:
  "fst (client_read (line_env (payload 4095)) (example_client [Written 3])
          (Rd (payload 4095 @ [CHR 0x0A]))) = 0 \<and>
   buffer (snd (client_read (line_env (payload 4095)) (example_client [Written 3])
          (Rd (payload 4095 @ [CHR 0x0A])))) = [] \<and>
   bufferPos (snd (client_read (line_env (payload 4095)) (example_client [Written 3])
          (Rd (payload 4095 @ [CHR 0x0A])))) = 0 \<and>
   sock_sent (snd (client_read (line_env (payload 4095)) (example_client [Written 3])
          (Rd (payload 4095 @ [CHR 0x0A])))) =
     ''OK MPD 0.14.0'' @ [CHR 0x0A] @ ''OK'' @ [CHR 0x0A] \<and>
   fst (client_read (line_env (payload 4094)) (example_client [Written 3])
          (Rd ((payload 4094 @ [CHR 0x0D]) @ [CHR 0x0A]))) = 0 \<and>
   fst (client_read (line_env (payload 4094)) (example_client [Written 3])
          (Rd (payload 4095 @ [CHR 0x0A]))) = 20 \<and>
   client_read example_env (example_client [Written 3]) (Rd (payload 4096)) =
     (20, (example_client [Written 3])\<lparr>buffer := payload 4096\<rparr>)"
proof -
  let ?c = "example_client [Written 3]"
  let ?P = "payload 4095" and ?Q = "payload 4094 @ [CHR 0x0D]"
  let ?lP = "if last ?P = CHR 0x0D then butlast ?P else ?P"
  let ?lQ = "if last ?Q = CHR 0x0D then butlast ?Q else ?Q"
  let ?cP = "?c\<lparr>buffer := (?P @ [CHR 0x0A])[length ?lP := CHR 0x00]\<rparr>"
  let ?cQ = "?c\<lparr>buffer := (?Q @ [CHR 0x0A])[length ?lQ := CHR 0x00]\<rparr>"
  let ?done = "\<lambda>x. (x\<lparr>send_buf := ''OK'' @ [CHR 0x0A]\<rparr>)
                 \<lparr>sock_script := [], sock_sent := sock_sent x @ ''OK'' @ [CHR 0x0A],
                  send_buf := []\<rparr>"
  have h: "buffer ?c = []" "bufferPos ?c = 0" by (simp_all add: example_client_fields)
  have lP: "?lP = payload 4095" by (simp add: payload_text)
  have lQ: "?lQ = payload 4094" by (simp add: payload_cr)
  have hP: "length ?P = 4095 \<and> CHR 0x0A \<notin> set ?P \<and> CHR 0x00 \<notin> set ?P"
    by (simp add: payload_simps payload_plain payload_text)
  have hQ: "length ?Q = 4095 \<and> CHR 0x0A \<notin> set ?Q \<and> CHR 0x00 \<notin> set ?Q"
    by (simp add: payload_simps payload_plain payload_text)
  have hF: "length (payload 4096) = 4096 \<and> CHR 0x0A \<notin> set (payload 4096)"
    by (simp add: payload_simps payload_plain)
  have names: "payload n \<noteq> ''noidle''" "payload n \<noteq> CLIENT_LIST_MODE_BEGIN"
    "payload n \<noteq> CLIENT_LIST_OK_MODE_BEGIN" if "4000 < n" for n
    using that
    by (simp_all add: payload_neq CLIENT_LIST_MODE_BEGIN_def CLIENT_LIST_OK_MODE_BEGIN_def)
  have p1: "client_process_line (line_env (payload 4095)) ?cP ?lP = (0, ?done ?cP)"
    unfolding lP
    by (rule command_line_ok [where n = 3])
       (simp_all add: names line_env_fields client_is_expired_def example_client_fields)
  have p2: "client_process_line (line_env (payload 4094)) ?cQ ?lQ = (0, ?done ?cQ)"
    unfolding lQ
    by (rule command_line_ok [where n = 3])
       (simp_all add: names line_env_fields client_is_expired_def example_client_fields)
  have p3: "client_process_line (line_env (payload 4094)) ?cP ?lP = (20, ?cP)"
    unfolding lP
    by (rule command_line_close)
       (simp_all add: names line_env_fields payload_neq payload_simps example_client_fields)
  note t1 = line_length_boundary [OF h, of ?P "line_env (payload 4095)" "payload 4096"]
  note t2 = line_length_boundary [OF h, of ?Q "line_env (payload 4094)" "payload 4096"]
  note t3 = line_length_boundary [OF h, of ?P "line_env (payload 4094)" "payload 4096"]
  note t4 = line_length_boundary [OF h, of ?P example_env "payload 4096"]
  have full: "bufferLength (?done ?cP) = sizeof_buffer" "bufferLength (?done ?cQ) = sizeof_buffer"
    by (simp_all add: bufferLength_def sizeof_buffer_def payload_simps)
  have live: "\<not> client_is_expired (?done ?cP)" "\<not> client_is_expired (?done ?cQ)"
    by (simp_all add: client_is_expired_def example_client_fields)
  from t1 hP p1 have "client_read (line_env (payload 4095)) ?c (Rd (?P @ [CHR 0x0A])) =
      (if 0 = COMMAND_RETURN_KILL (line_env (payload 4095)) \<or>
          0 = COMMAND_RETURN_CLOSE (line_env (payload 4095)) then (0, ?done ?cP)
       else if client_is_expired (?done ?cP)
         then (COMMAND_RETURN_CLOSE (line_env (payload 4095)), ?done ?cP)
       else if bufferLength (?done ?cP) = sizeof_buffer
         then (0, (?done ?cP)\<lparr>buffer := [], bufferPos := 0\<rparr>)
       else (0, (?done ?cP)\<lparr>bufferPos := 4096\<rparr>))"
    by blast
  then have a: "client_read (line_env (payload 4095)) ?c (Rd (?P @ [CHR 0x0A])) =
      (0, (?done ?cP)\<lparr>buffer := [], bufferPos := 0\<rparr>)"
    using full live by (simp add: line_env_fields)
  from t2 hQ p2 have "client_read (line_env (payload 4094)) ?c (Rd (?Q @ [CHR 0x0A])) =
      (if 0 = COMMAND_RETURN_KILL (line_env (payload 4094)) \<or>
          0 = COMMAND_RETURN_CLOSE (line_env (payload 4094)) then (0, ?done ?cQ)
       else if client_is_expired (?done ?cQ)
         then (COMMAND_RETURN_CLOSE (line_env (payload 4094)), ?done ?cQ)
       else if bufferLength (?done ?cQ) = sizeof_buffer
         then (0, (?done ?cQ)\<lparr>buffer := [], bufferPos := 0\<rparr>)
       else (0, (?done ?cQ)\<lparr>bufferPos := 4096\<rparr>))"
    by blast
  then have b: "fst (client_read (line_env (payload 4094)) ?c (Rd (?Q @ [CHR 0x0A]))) = 0"
    using full live by (simp add: line_env_fields)
  from t3 hP p3 have "client_read (line_env (payload 4094)) ?c (Rd (?P @ [CHR 0x0A])) =
      (if 20 = COMMAND_RETURN_KILL (line_env (payload 4094)) \<or>
          20 = COMMAND_RETURN_CLOSE (line_env (payload 4094)) then (20, ?cP)
       else if client_is_expired ?cP
         then (COMMAND_RETURN_CLOSE (line_env (payload 4094)), ?cP)
       else if bufferLength ?cP = sizeof_buffer
         then (0, ?cP\<lparr>buffer := [], bufferPos := 0\<rparr>)
       else (0, ?cP\<lparr>bufferPos := 4096\<rparr>))"
    by blast
  then have c: "fst (client_read (line_env (payload 4094)) ?c (Rd (?P @ [CHR 0x0A]))) = 20"
    by (simp add: line_env_fields)
  from t4 hF have d: "client_read example_env ?c (Rd (payload 4096)) =
      (COMMAND_RETURN_CLOSE example_env, ?c\<lparr>buffer := payload 4096\<rparr>)"
    by blast
  show ?thesis
    unfolding a b c d by (simp add: example_env_fields example_client_fields)
qed

subsection \<open>The order of a command list\<close>

text \<open>
  C9. A client in normal mode opens a list with \<^verbatim>\<open>command_list_begin\<close> or
  \<^verbatim>\<open>command_list_ok_begin\<close> and sends the lines \<open>ls\<close>, all of them queued. Each was
  prepended, so \<open>cmd_list\<close> is \<open>ls\<close> reversed; at \<^verbatim>\<open>command_list_end\<close> the list is reversed
  once and \<^verbatim>\<open>command_process_list\<close> receives \<open>ls\<close> itself, in the order sent.
\<close>

theorem command_list_order:
  assumes "cmd_list_OK c < 0" and "\<not> idle_waiting c" and "cmd_list c = []"
      and "opener = CLIENT_LIST_MODE_BEGIN \<or> opener = CLIENT_LIST_OK_MODE_BEGIN"
      and "\<forall>l \<in> set ls. l \<noteq> ''noidle'' \<and> l \<noteq> CLIENT_LIST_MODE_END"
      and "cmd_list_size c + line_sizes ls \<le> client_max_command_list_size env"
      and "ok = (if opener = CLIENT_LIST_MODE_BEGIN then 0 else 1)"
      and "c2 = fold (\<lambda>l c. snd (client_process_line env c l)) ls
                  (snd (client_process_line env c opener))"
  shows "cmd_list c2 = rev ls \<and> cmd_list_OK c2 = ok \<and>
         client_process_line env c2 CLIENT_LIST_MODE_END =
           (case command_process_list env ok ls (c2\<lparr>cmd_list := ls\<rparr>) of
              (ret, c3) \<Rightarrow>
                if ret = COMMAND_RETURN_CLOSE env \<or> client_is_expired c3
                then (COMMAND_RETURN_CLOSE env, c3)
                else (ret, (client_write_output env (if ret = 0 then command_success env c3 else c3))
                             \<lparr>cmd_list := [], cmd_list_OK := -1\<rparr>))"
proof -
  have opener: "opener \<noteq> ''noidle''"
    using assms(4) by (auto simp: CLIENT_LIST_MODE_BEGIN_def CLIENT_LIST_OK_MODE_BEGIN_def)
  have "CLIENT_LIST_OK_MODE_BEGIN \<noteq> CLIENT_LIST_MODE_BEGIN"
    by (simp add: CLIENT_LIST_MODE_BEGIN_def CLIENT_LIST_OK_MODE_BEGIN_def)
  then have c1: "snd (client_process_line env c opener) = c\<lparr>cmd_list_OK := ok\<rparr>"
    using assms(1,2,4,7) opener by (auto simp: client_process_line_def)
  have "c2 = (c\<lparr>cmd_list_OK := ok\<rparr>)\<lparr>cmd_list_size := cmd_list_size c + line_sizes ls,
                                      cmd_list := rev ls @ []\<rparr>"
    unfolding assms(8) c1 using assms(2,3,5,6,7) queue_lines [of "c\<lparr>cmd_list_OK := ok\<rparr>" ls env]
    by simp
  then have c2: "cmd_list c2 = rev ls" "cmd_list_OK c2 = ok" "\<not> idle_waiting c2"
    using assms(2) by simp_all
  have "ok \<ge> 0" using assms(7) by simp
  have "CLIENT_LIST_MODE_END \<noteq> ''noidle''" by (simp add: CLIENT_LIST_MODE_END_def)
  then show ?thesis
    using c2 \<open>ok \<ge> 0\<close> by (simp add: client_process_line_def Let_def split: prod.splits)
qed

theorem command_list_order_witness:
  "cmd_list (fold (\<lambda>l c. snd (client_process_line example_env c l)) [''play'', ''status'']
              (snd (client_process_line example_env (example_client []) CLIENT_LIST_MODE_BEGIN))) =
     [''status'', ''play''] \<and>
   cmd_list_OK (fold (\<lambda>l c. snd (client_process_line example_env c l)) [''play'', ''status'']
              (snd (client_process_line example_env (example_client []) CLIENT_LIST_MODE_BEGIN))) = 0 \<and>
   client_process_line example_env
     (fold (\<lambda>l c. snd (client_process_line example_env c l)) [''play'', ''status'']
        (snd (client_process_line example_env (example_client []) CLIENT_LIST_MODE_BEGIN)))
     CLIENT_LIST_MODE_END =
     (case command_process_list example_env 0 [''play'', ''status'']
             ((fold (\<lambda>l c. snd (client_process_line example_env c l)) [''play'', ''status'']
                (snd (client_process_line example_env (example_client []) CLIENT_LIST_MODE_BEGIN)))
              \<lparr>cmd_list := [''play'', ''status'']\<rparr>) of
        (ret, c3) \<Rightarrow>
          if ret = COMMAND_RETURN_CLOSE example_env \<or> client_is_expired c3
          then (COMMAND_RETURN_CLOSE example_env, c3)
          else (ret, (client_write_output example_env
                        (if ret = 0 then command_success example_env c3 else c3))
                       \<lparr>cmd_list := [], cmd_list_OK := -1\<rparr>))"
proof -
  have h: "cmd_list_OK (example_client []) < 0" "\<not> idle_waiting (example_client [])"
    "cmd_list (example_client []) = []"
    "CLIENT_LIST_MODE_BEGIN = CLIENT_LIST_MODE_BEGIN \<or> CLIENT_LIST_MODE_BEGIN = CLIENT_LIST_OK_MODE_BEGIN"
    "\<forall>l \<in> set [''play'', ''status'']. l \<noteq> ''noidle'' \<and> l \<noteq> CLIENT_LIST_MODE_END"
    "cmd_list_size (example_client []) + line_sizes [''play'', ''status'']
       \<le> client_max_command_list_size example_env"
    "(0::int) = (if CLIENT_LIST_MODE_BEGIN = CLIENT_LIST_MODE_BEGIN then 0 else 1)"
    by (simp_all add: example_client_fields example_env_fields line_sizes_def
        CLIENT_LIST_MODE_END_def)
  have "rev [''play'', ''status''] = [''status'', ''play'']" by simp
  then show ?thesis
    using command_list_order [OF h refl] by simp
qed

end
